theory Spec2Isabelle
  imports Main "HOL-Library.Word"
begin

section \<open>Data model\<close>

subsection \<open>Values of the libvirt bindings\<close>

text \<open>
  A \<open>libvirt.Error\<close> as the resource code uses it: the numeric \<open>Code\<close> that
  \<open>resourceLibvirtPoolExists\<close> inspects, and the text that \<open>%s\<close> prints for it.
\<close>

record virError =
  Code :: int
  ErrorText :: string

text \<open>The error number \<open>libvirt.ERR_NO_STORAGE_POOL\<close> of the bindings.\<close>

definition ERR_NO_STORAGE_POOL :: int where
  "ERR_NO_STORAGE_POOL = 49"

text \<open>A \<open>*libvirt.StoragePool\<close> is an opaque handle.\<close>

datatype StoragePool = StoragePoolPtr nat

text \<open>The three byte counts of a \<open>libvirt.StoragePoolInfo\<close> are \<open>uint64\<close>.\<close>

record StoragePoolInfo =
  Capacity :: "64 word"
  Allocation :: "64 word"
  Available :: "64 word"

text \<open>
  The part of \<open>libvirtxml.StoragePool\<close> that the resource code builds and reads:
  the \<open>Source\<close> and \<open>Target\<close> pointers are options, \<open>None\<close> being \<open>nil\<close>.
\<close>

record StoragePoolSourceDevice =
  DevicePath :: string

record StoragePoolSource =
  Device :: "StoragePoolSourceDevice list"

record StoragePoolTarget =
  TargetPath :: string

record StoragePoolXML =
  Type :: string
  Name :: string
  Source :: "StoragePoolSource option"
  Target :: "StoragePoolTarget option"

subsection \<open>The resource data\<close>

text \<open>
  \<open>schema.ResourceData\<close> restricted to the schema of \<open>resourceLibvirtPool\<close>: the
  identifier and one field for each attribute, of the type that the schema declares
  (\<open>capacity\<close> and \<open>allocation\<close> are \<open>TypeInt\<close>, \<open>available\<close> is
  \<open>TypeString\<close>). \<open>d.Get\<close> of an unset string attribute is the empty string, of
  an unset list the empty list. The identifier is the field \<open>IdStr\<close>, read by
  \<open>d.Id()\<close> and written by \<open>d.SetId\<close>.
\<close>

record ResourceData =
  IdStr :: string
  attr_name :: string
  attr_type :: string
  attr_capacity :: int
  attr_allocation :: int
  attr_available :: string
  attr_xslt :: string
  attr_path :: string
  attr_source_devices :: "string list"
  partial :: bool
  partialMap :: "string list"

subsection \<open>The log of effects\<close>

text \<open>
  Every call on the hypervisor connection is logged together with what it returned,
  and so are the lock operations on the pool name, the release of a pool handle, the
  write of the resource identifier and the wait for the pool to become visible. A
  lookup returns either a handle (\<open>Inr\<close>) or an error with a \<open>nil\<close> handle (\<open>Inl\<close>),
  as the bindings do.
\<close>

datatype event =
    EvLock string
  | EvUnlock string
  | EvLookupStoragePoolByName string "virError + StoragePool"
  | EvLookupStoragePoolByUUIDString string "virError + StoragePool"
  | EvStoragePoolDefineXML string "virError + StoragePool"
  | EvBuild StoragePool "virError option"
  | EvSetAutostart StoragePool bool "virError option"
  | EvCreate StoragePool "virError option"
  | EvRefresh StoragePool "virError option"
  | EvGetUUIDString StoragePool "virError + string"
  | EvGetName StoragePool "virError + string"
  | EvGetInfo StoragePool "virError + StoragePoolInfo"
  | EvGetXMLDesc StoragePool "virError + string"
  | EvIsActive StoragePool "virError + bool"
  | EvDestroy StoragePool "virError option"
  | EvUndefine StoragePool "virError option"
  | EvFree StoragePool
  | EvSetId string
  | EvWaitForExists string "string option"

text \<open>
  The hypervisor connection. What a call returns may depend on everything that has
  happened so far, so each operation reads the log up to the call.
\<close>

record Connect =
  LookupStoragePoolByName :: "event list \<Rightarrow> string \<Rightarrow> virError + StoragePool"
  LookupStoragePoolByUUIDString :: "event list \<Rightarrow> string \<Rightarrow> virError + StoragePool"
  StoragePoolDefineXML :: "event list \<Rightarrow> string \<Rightarrow> virError + StoragePool"
  Build :: "event list \<Rightarrow> StoragePool \<Rightarrow> virError option"
  SetAutostart :: "event list \<Rightarrow> StoragePool \<Rightarrow> bool \<Rightarrow> virError option"
  Create :: "event list \<Rightarrow> StoragePool \<Rightarrow> virError option"
  Refresh :: "event list \<Rightarrow> StoragePool \<Rightarrow> virError option"
  GetUUIDString :: "event list \<Rightarrow> StoragePool \<Rightarrow> virError + string"
  GetName :: "event list \<Rightarrow> StoragePool \<Rightarrow> virError + string"
  GetInfo :: "event list \<Rightarrow> StoragePool \<Rightarrow> virError + StoragePoolInfo"
  GetXMLDesc :: "event list \<Rightarrow> StoragePool \<Rightarrow> virError + string"
  IsActive :: "event list \<Rightarrow> StoragePool \<Rightarrow> virError + bool"
  Destroy :: "event list \<Rightarrow> StoragePool \<Rightarrow> virError option"
  Undefine :: "event list \<Rightarrow> StoragePool \<Rightarrow> virError option"

text \<open>
  The \<open>Client\<close> passed as \<open>meta\<close>: its \<open>libvirt\<close> field is \<open>None\<close> when the
  connection is \<open>nil\<close>. Its lock registry shows in the log only.
\<close>

record Client =
  libvirt :: "Connect option"

text \<open>
  What the resource code takes from the rest of the package and from the standard
  library: the text of \<open>LibVirtConIsNil\<close>, the XML encoder and decoder for a pool
  definition, the XSLT transformation and the wait for a created pool. Each is a
  parameter; an error of theirs is the text of its message. \<open>xmlUnmarshal\<close> returns
  the error, if any, and the definition as far as it was filled.
\<close>

record Package =
  LibVirtConIsNil :: string
  xmlMarshallIndented :: "StoragePoolXML \<Rightarrow> string + string"
  transformResourceXML :: "string \<Rightarrow> ResourceData \<Rightarrow> string + string"
  xmlUnmarshal :: "string \<Rightarrow> string option \<times> StoragePoolXML"
  poolWaitForExists :: "Connect \<Rightarrow> event list \<Rightarrow> string \<Rightarrow> string option"

subsection \<open>Errors\<close>

text \<open>
  One constructor for each place where the resource code makes an error. The last one
  is the error of \<open>deletePool\<close>, which carries the failing step and its cause.
\<close>

datatype error =
    ErrLibVirtConIsNil
  | ErrUnsupportedType
  | ErrAlreadyExists string
  | ErrDirPathRequired
  | ErrDirSourceDevices
  | ErrLogicalPath
  | ErrSerializing string
  | ErrXSLT string
  | ErrCreating virError
  | ErrBuilding virError
  | ErrSettingUp virError
  | ErrStarting virError
  | ErrRefreshing virError
  | ErrRetrievingId virError
  | ErrWaitForExists string
  | ErrRetrievingName virError
  | ErrRetrievingInfo virError
  | ErrXMLDesc string virError
  | ErrDefFromXML string string
  | ErrCantRetrieve string
  | ErrDeletePool string virError

definition sq :: string where
  "sq = [CHR 0x27]"

definition dq :: string where
  "dq = [CHR 0x22]"

text \<open>The message of each error, as the format strings of the code spell it.\<close>

fun errorString :: "Package \<Rightarrow> error \<Rightarrow> string" where
  "errorString pkg ErrLibVirtConIsNil = LibVirtConIsNil pkg"
| "errorString pkg ErrUnsupportedType =
     ''Only storage pools of type '' @ dq @ ''dir'' @ dq @ '' and '' @ dq @ ''logical'' @ dq
       @ '' are supported''"
| "errorString pkg (ErrAlreadyExists poolName) =
     ''storage pool '' @ sq @ poolName @ sq @ '' already exists''"
| "errorString pkg ErrDirPathRequired =
     dq @ ''path'' @ dq @ '' attribute is requires for storage pools of type '' @ dq @ ''dir'' @ dq"
| "errorString pkg ErrDirSourceDevices =
     dq @ ''source_devices'' @ dq @ '' attribute cannot be used for storage pool of type ''
       @ dq @ ''dir'' @ dq"
| "errorString pkg ErrLogicalPath =
     dq @ ''path'' @ dq @ '' attribute cannot be used for storage pool of type ''
       @ dq @ ''logical'' @ dq"
| "errorString pkg (ErrSerializing e) = ''Error serializing libvirt storage pool: '' @ e"
| "errorString pkg (ErrXSLT e) = ''Error applying XSLT stylesheet: '' @ e"
| "errorString pkg (ErrCreating e) = ''Error creating libvirt storage pool: '' @ ErrorText e"
| "errorString pkg (ErrBuilding e) = ''Error building libvirt storage pool: '' @ ErrorText e"
| "errorString pkg (ErrSettingUp e) = ''Error setting up libvirt storage pool: '' @ ErrorText e"
| "errorString pkg (ErrStarting e) = ''Error starting libvirt storage pool: '' @ ErrorText e"
| "errorString pkg (ErrRefreshing e) = ''Error refreshing libvirt storage pool: '' @ ErrorText e"
| "errorString pkg (ErrRetrievingId e) = ''Error retrieving libvirt pool id: '' @ ErrorText e"
| "errorString pkg (ErrWaitForExists e) = e"
| "errorString pkg (ErrRetrievingName e) = ''error retrieving pool name: '' @ ErrorText e"
| "errorString pkg (ErrRetrievingInfo e) = ''error retrieving pool info: '' @ ErrorText e"
| "errorString pkg (ErrXMLDesc poolName e) =
     ''could not get XML description for pool '' @ poolName @ '': '' @ ErrorText e"
| "errorString pkg (ErrDefFromXML poolName e) =
     ''could not get a pool definition from XML for '' @ poolName @ '': '' @ e"
| "errorString pkg (ErrCantRetrieve poolId) = ''Can'' @ sq @ ''t retrieve pool '' @ poolId"
| "errorString pkg (ErrDeletePool step e) = step @ '': '' @ ErrorText e"

section \<open>Operations on the resource data\<close>

definition SetId :: "string \<Rightarrow> ResourceData \<Rightarrow> ResourceData" where
  "SetId v d = d\<lparr>IdStr := v\<rparr>"

definition Partial :: "bool \<Rightarrow> ResourceData \<Rightarrow> ResourceData" where
  "Partial on d = d\<lparr>partial := on, partialMap := (if on then partialMap d else [])\<rparr>"

definition SetPartial :: "string \<Rightarrow> ResourceData \<Rightarrow> ResourceData" where
  "SetPartial k d = (if partial d then d\<lparr>partialMap := partialMap d @ [k]\<rparr> else d)"

section \<open>Reading a pool definition\<close>

text \<open>\<open>newDefPoolFromXML\<close> of \<open>pool_def.go\<close>: the zero definition on an error.\<close>

definition emptyStoragePoolXML :: StoragePoolXML where
  "emptyStoragePoolXML = \<lparr>Type = [], Name = [], Source = None, Target = None\<rparr>"

definition newDefPoolFromXML :: "Package \<Rightarrow> string \<Rightarrow> string + StoragePoolXML" where
  "newDefPoolFromXML pkg s =
     (case xmlUnmarshal pkg s of
        (Some err, poolDef) \<Rightarrow> Inl err
      | (None, poolDef) \<Rightarrow> Inr poolDef)"

section \<open>Read\<close>

text \<open>
  The body of \<open>resourceLibvirtPoolRead\<close> once the lookup has returned a pool, up
  to its \<open>return\<close>; the deferred \<open>pool.Free()\<close> is logged by the caller. Each
  function returns the error (\<open>None\<close> is \<open>nil\<close>), the resource data and the log.
  \<open>d.Set\<close> stores a \<open>uint64\<close> in an attribute of type \<open>TypeInt\<close> as the
  signed integer of the same 64 bits. It refuses a \<open>uint64\<close> for the attribute
  \<open>available\<close>, which is of type \<open>TypeString\<close>; the code drops the error of
  \<open>d.Set\<close>, so that attribute stays as it was.
\<close>

definition readPool ::
  "Package \<Rightarrow> Connect \<Rightarrow> ResourceData \<Rightarrow> event list \<Rightarrow> StoragePool
     \<Rightarrow> error option \<times> ResourceData \<times> event list" where
  "readPool pkg virConn d tr pool =
     (let r1 = GetName virConn tr pool;
          tr1 = tr @ [EvGetName pool r1]
      in case r1 of
           Inl err \<Rightarrow> (Some (ErrRetrievingName err), d, tr1)
         | Inr poolName \<Rightarrow>
            (let d1 = d\<lparr>attr_name := poolName\<rparr>;
                 r2 = GetInfo virConn tr1 pool;
                 tr2 = tr1 @ [EvGetInfo pool r2]
             in case r2 of
                  Inl err \<Rightarrow> (Some (ErrRetrievingInfo err), d1, tr2)
                | Inr info \<Rightarrow>
                   (let d2 = d1\<lparr>attr_capacity := sint (Capacity info),
                                attr_allocation := sint (Allocation info)\<rparr>;
                        r3 = GetXMLDesc virConn tr2 pool;
                        tr3 = tr2 @ [EvGetXMLDesc pool r3]
                    in case r3 of
                         Inl err \<Rightarrow> (Some (ErrXMLDesc poolName err), d2, tr3)
                       | Inr poolDefXML \<Rightarrow>
                           (case xmlUnmarshal pkg poolDefXML of
                              (Some err, poolDef) \<Rightarrow>
                                (Some (ErrDefFromXML (Name poolDef) err), d2, tr3)
                            | (None, poolDef) \<Rightarrow>
                                let poolPath =
                                      (case Target poolDef of
                                         None \<Rightarrow> []
                                       | Some t \<Rightarrow>
                                           if TargetPath t \<noteq> [] then TargetPath t else []);
                                    d3 = (if Type poolDef \<noteq> ''logical''
                                          then (if poolPath = [] then d2
                                                else d2\<lparr>attr_path := poolPath\<rparr>)
                                          else d2);
                                    poolType = Type poolDef;
                                    d4 = (if poolType = [] then d3
                                          else d3\<lparr>attr_type := poolType\<rparr>)
                                in (None, d4, tr3)))))"

definition resourceLibvirtPoolRead ::
  "Package \<Rightarrow> Client \<Rightarrow> ResourceData \<Rightarrow> event list
     \<Rightarrow> error option \<times> ResourceData \<times> event list" where
  "resourceLibvirtPoolRead pkg client d tr =
     (case libvirt client of
        None \<Rightarrow> (Some ErrLibVirtConIsNil, d, tr)
      | Some virConn \<Rightarrow>
         (let r = LookupStoragePoolByUUIDString virConn tr (IdStr d);
              tr1 = tr @ [EvLookupStoragePoolByUUIDString (IdStr d) r]
          in case r of
               Inl err \<Rightarrow> (None, SetId [] d, tr1 @ [EvSetId []])
             | Inr pool \<Rightarrow>
                 (case readPool pkg virConn d tr1 pool of
                    (res, d', tr') \<Rightarrow> (res, d', tr' @ [EvFree pool]))))"

section \<open>Exists\<close>

definition resourceLibvirtPoolExists ::
  "Package \<Rightarrow> Client \<Rightarrow> ResourceData \<Rightarrow> event list
     \<Rightarrow> (bool \<times> error option) \<times> event list" where
  "resourceLibvirtPoolExists pkg client d tr =
     (case libvirt client of
        None \<Rightarrow> ((False, Some ErrLibVirtConIsNil), tr)
      | Some virConn \<Rightarrow>
         (let r = LookupStoragePoolByUUIDString virConn tr (IdStr d);
              tr1 = tr @ [EvLookupStoragePoolByUUIDString (IdStr d) r]
          in case r of
               Inl virErr \<Rightarrow>
                 if Code virErr \<noteq> ERR_NO_STORAGE_POOL
                 then ((False, Some (ErrCantRetrieve (IdStr d))), tr1)
                 else ((False, None), tr1)
             | Inr pool \<Rightarrow> ((True, None), tr1 @ [EvFree pool])))"

section \<open>Create\<close>

text \<open>
  The loop of \<open>resourceLibvirtPoolCreate\<close> over \<open>source_devices.0\<close>,
  \<open>source_devices.1\<close>, ... up to the count \<open>source_devices.#\<close>, appending one
  device for each.
\<close>

function devicesLoop ::
  "ResourceData \<Rightarrow> nat \<Rightarrow> StoragePoolSourceDevice list \<Rightarrow> StoragePoolSourceDevice list" where
  "devicesLoop d i devices =
     (if i < length (attr_source_devices d)
      then devicesLoop d (Suc i) (devices @ [\<lparr>DevicePath = attr_source_devices d ! i\<rparr>])
      else devices)"
  by pat_completeness auto
termination
  by (relation "measure (\<lambda>(d, i, devices). length (attr_source_devices d) - i)") auto

declare devicesLoop.simps [simp del]

text \<open>
  The type-specific validation and the construction of the definition (from the read
  of \<open>path\<close> to the end of the \<open>if\<close> on the pool type), which call nothing outside:
  the error, or the definition and \<open>needToBuild\<close>. The type is \<open>dir\<close> or
  \<open>logical\<close> when this runs, the caller having refused every other one. A slice that
  was appended to is not \<open>nil\<close>, so \<open>devices != nil\<close> is \<open>devices \<noteq> []\<close>.
\<close>

definition buildPoolDef :: "ResourceData \<Rightarrow> error + StoragePoolXML \<times> bool" where
  "buildPoolDef d =
     (let poolType = attr_type d;
          poolName = attr_name d;
          poolPath = attr_path d
      in if poolType = ''dir'' then
           (if poolPath = [] then Inl ErrDirPathRequired
            else if length (attr_source_devices d) \<noteq> 0 then Inl ErrDirSourceDevices
            else Inr (\<lparr>Type = ''dir'', Name = poolName, Source = None,
                       Target = Some \<lparr>TargetPath = poolPath\<rparr>\<rparr>, True))
         else
           (if poolPath \<noteq> [] then Inl ErrLogicalPath
            else
              let poolDef = \<lparr>Type = ''logical'', Name = poolName, Source = None, Target = None\<rparr>;
                  devices = devicesLoop d 0 []
              in if devices \<noteq> []
                 then Inr (poolDef\<lparr>Source := Some \<lparr>Device = devices\<rparr>\<rparr>, True)
                 else Inr (poolDef, False)))"

text \<open>
  From the recording of the identifier to the end: \<open>d.SetId\<close>, the partial-state
  bracket (its \<open>d.Set("id", id)\<close> names no attribute of the schema and leaves the
  attributes as they are), the wait and the final read.
\<close>

definition createRecordId ::
  "Package \<Rightarrow> Client \<Rightarrow> Connect \<Rightarrow> ResourceData \<Rightarrow> event list \<Rightarrow> string
     \<Rightarrow> error option \<times> ResourceData \<times> event list" where
  "createRecordId pkg client virConn d tr poolId =
     (let d1 = SetId poolId d;
          tr1 = tr @ [EvSetId poolId];
          d2 = Partial False (SetPartial ''id'' (Partial True d1));
          rw = poolWaitForExists pkg virConn tr1 poolId;
          tr2 = tr1 @ [EvWaitForExists poolId rw]
      in case rw of
           Some err \<Rightarrow> (Some (ErrWaitForExists err), d2, tr2)
         | None \<Rightarrow> resourceLibvirtPoolRead pkg client d2 tr2)"

text \<open>
  From \<open>pool.SetAutostart\<close> to the end, on the pool that the define call
  returned: autostart, start, refresh, then the identifier.
\<close>

definition createActivate ::
  "Package \<Rightarrow> Client \<Rightarrow> Connect \<Rightarrow> ResourceData \<Rightarrow> event list \<Rightarrow> StoragePool
     \<Rightarrow> error option \<times> ResourceData \<times> event list" where
  "createActivate pkg client virConn d tr pool =
     (let r1 = SetAutostart virConn tr pool True;
          tr1 = tr @ [EvSetAutostart pool True r1]
      in case r1 of
           Some err \<Rightarrow> (Some (ErrSettingUp err), d, tr1)
         | None \<Rightarrow>
            (let r2 = Create virConn tr1 pool;
                 tr2 = tr1 @ [EvCreate pool r2]
             in case r2 of
                  Some err \<Rightarrow> (Some (ErrStarting err), d, tr2)
                | None \<Rightarrow>
                   (let r3 = Refresh virConn tr2 pool;
                        tr3 = tr2 @ [EvRefresh pool r3]
                    in case r3 of
                         Some err \<Rightarrow> (Some (ErrRefreshing err), d, tr3)
                       | None \<Rightarrow>
                          (let r4 = GetUUIDString virConn tr3 pool;
                               tr4 = tr3 @ [EvGetUUIDString pool r4]
                           in case r4 of
                                Inl err \<Rightarrow> (Some (ErrRetrievingId err), d, tr4)
                              | Inr poolId \<Rightarrow>
                                  createRecordId pkg client virConn d tr4 poolId))))"

text \<open>The build step, taken when \<open>needToBuild\<close> holds, and what follows it.\<close>

definition createPool ::
  "Package \<Rightarrow> Client \<Rightarrow> Connect \<Rightarrow> ResourceData \<Rightarrow> event list \<Rightarrow> StoragePool \<Rightarrow> bool
     \<Rightarrow> error option \<times> ResourceData \<times> event list" where
  "createPool pkg client virConn d tr pool needToBuild =
     (if needToBuild then
        (let rb = Build virConn tr pool;
             trb = tr @ [EvBuild pool rb]
         in case rb of
              Some err \<Rightarrow> (Some (ErrBuilding err), d, trb)
            | None \<Rightarrow> createActivate pkg client virConn d trb pool)
      else createActivate pkg client virConn d tr pool)"

text \<open>
  Serialising, transforming and submitting the definition; the deferred
  \<open>pool.Free()\<close> runs when the rest has returned.
\<close>

definition createDefine ::
  "Package \<Rightarrow> Client \<Rightarrow> Connect \<Rightarrow> ResourceData \<Rightarrow> event list \<Rightarrow> StoragePoolXML \<Rightarrow> bool
     \<Rightarrow> error option \<times> ResourceData \<times> event list" where
  "createDefine pkg client virConn d tr poolDef needToBuild =
     (case xmlMarshallIndented pkg poolDef of
        Inl err \<Rightarrow> (Some (ErrSerializing err), d, tr)
      | Inr data \<Rightarrow>
          (case transformResourceXML pkg data d of
             Inl err \<Rightarrow> (Some (ErrXSLT err), d, tr)
           | Inr data' \<Rightarrow>
              (let r = StoragePoolDefineXML virConn tr data';
                   tr1 = tr @ [EvStoragePoolDefineXML data' r]
               in case r of
                    Inl err \<Rightarrow> (Some (ErrCreating err), d, tr1)
                  | Inr pool \<Rightarrow>
                      (case createPool pkg client virConn d tr1 pool needToBuild of
                         (res, d', tr') \<Rightarrow> (res, d', tr' @ [EvFree pool])))))"

text \<open>What runs while the lock on the pool name is held.\<close>

definition createLocked ::
  "Package \<Rightarrow> Client \<Rightarrow> Connect \<Rightarrow> ResourceData \<Rightarrow> event list
     \<Rightarrow> error option \<times> ResourceData \<times> event list" where
  "createLocked pkg client virConn d tr =
     (let poolName = attr_name d;
          r = LookupStoragePoolByName virConn tr poolName;
          tr1 = tr @ [EvLookupStoragePoolByName poolName r]
      in case r of
           Inr pool \<Rightarrow> (Some (ErrAlreadyExists poolName), d, tr1)
         | Inl err \<Rightarrow>
             (case buildPoolDef d of
                Inl e \<Rightarrow> (Some e, d, tr1)
              | Inr (poolDef, needToBuild) \<Rightarrow>
                  createDefine pkg client virConn d tr1 poolDef needToBuild))"

definition resourceLibvirtPoolCreate ::
  "Package \<Rightarrow> Client \<Rightarrow> ResourceData \<Rightarrow> event list
     \<Rightarrow> error option \<times> ResourceData \<times> event list" where
  "resourceLibvirtPoolCreate pkg client d tr =
     (case libvirt client of
        None \<Rightarrow> (Some ErrLibVirtConIsNil, d, tr)
      | Some virConn \<Rightarrow>
          let poolType = attr_type d
          in if poolType \<noteq> ''dir'' \<and> poolType \<noteq> ''logical''
             then (Some ErrUnsupportedType, d, tr)
             else
               let poolName = attr_name d
               in case createLocked pkg client virConn d (tr @ [EvLock poolName]) of
                    (res, d', tr') \<Rightarrow> (res, d', tr' @ [EvUnlock poolName]))"

section \<open>Delete\<close>

text \<open>
  Modelled from the spec: \<open>deletePool\<close>, which \<open>resourceLibvirtPoolDelete\<close>
  calls and whose source is not among the files. The delete protocol reads: look up by
  id; if the lookup fails because the resource is already absent, treat as success;
  otherwise stop (if active) and undefine; both must succeed or the operation is
  fatal. A lookup that fails with the code for a missing pool is the absent case; any
  other failure of a hypervisor call is fatal.
\<close>

definition deletePool :: "Connect \<Rightarrow> string \<Rightarrow> event list \<Rightarrow> error option \<times> event list" where
  "deletePool virConn uuid tr =
     (let r = LookupStoragePoolByUUIDString virConn tr uuid;
          tr1 = tr @ [EvLookupStoragePoolByUUIDString uuid r]
      in case r of
           Inl virErr \<Rightarrow>
             if Code virErr = ERR_NO_STORAGE_POOL then (None, tr1)
             else (Some (ErrDeletePool ''lookup'' virErr), tr1)
         | Inr pool \<Rightarrow>
            (let ra = IsActive virConn tr1 pool;
                 tr2 = tr1 @ [EvIsActive pool ra]
             in case ra of
                  Inl err \<Rightarrow> (Some (ErrDeletePool ''stop'' err), tr2 @ [EvFree pool])
                | Inr active \<Rightarrow>
                   (let rs = (if active then Destroy virConn tr2 pool else None);
                        tr3 = (if active then tr2 @ [EvDestroy pool rs] else tr2)
                    in case rs of
                         Some err \<Rightarrow> (Some (ErrDeletePool ''stop'' err), tr3 @ [EvFree pool])
                       | None \<Rightarrow>
                          (let ru = Undefine virConn tr3 pool;
                               tr4 = tr3 @ [EvUndefine pool ru]
                           in case ru of
                                Some err \<Rightarrow>
                                  (Some (ErrDeletePool ''undefine'' err), tr4 @ [EvFree pool])
                              | None \<Rightarrow> (None, tr4 @ [EvFree pool])))))"

definition resourceLibvirtPoolDelete ::
  "Client \<Rightarrow> ResourceData \<Rightarrow> event list \<Rightarrow> error option \<times> event list" where
  "resourceLibvirtPoolDelete client d tr =
     (case libvirt client of
        None \<Rightarrow> (Some ErrLibVirtConIsNil, tr)
      | Some virConn \<Rightarrow> deletePool virConn (IdStr d) tr)"

section \<open>Reading the log\<close>

text \<open>The events that are calls on the hypervisor connection or on a pool of it.\<close>

fun isHypervisorCall :: "event \<Rightarrow> bool" where
  "isHypervisorCall (EvLock n) = False"
| "isHypervisorCall (EvUnlock n) = False"
| "isHypervisorCall (EvSetId v) = False"
| "isHypervisorCall (EvWaitForExists v r) = True"
| "isHypervisorCall (EvLookupStoragePoolByName n r) = True"
| "isHypervisorCall (EvLookupStoragePoolByUUIDString u r) = True"
| "isHypervisorCall (EvStoragePoolDefineXML x r) = True"
| "isHypervisorCall (EvBuild p r) = True"
| "isHypervisorCall (EvSetAutostart p b r) = True"
| "isHypervisorCall (EvCreate p r) = True"
| "isHypervisorCall (EvRefresh p r) = True"
| "isHypervisorCall (EvGetUUIDString p r) = True"
| "isHypervisorCall (EvGetName p r) = True"
| "isHypervisorCall (EvGetInfo p r) = True"
| "isHypervisorCall (EvGetXMLDesc p r) = True"
| "isHypervisorCall (EvIsActive p r) = True"
| "isHypervisorCall (EvDestroy p r) = True"
| "isHypervisorCall (EvUndefine p r) = True"
| "isHypervisorCall (EvFree p) = True"

text \<open>The calls that change the hypervisor: define, build, autostart, start, stop, undefine.\<close>

fun isMutation :: "event \<Rightarrow> bool" where
  "isMutation (EvStoragePoolDefineXML x r) = True"
| "isMutation (EvBuild p r) = True"
| "isMutation (EvSetAutostart p b r) = True"
| "isMutation (EvCreate p r) = True"
| "isMutation (EvDestroy p r) = True"
| "isMutation (EvUndefine p r) = True"
| "isMutation e = False"

fun isBuild :: "event \<Rightarrow> bool" where
  "isBuild (EvBuild p r) = True"
| "isBuild e = False"

text \<open>
  The events of the first half of a create: the lock, the check of the name, the
  submission of the definition and the build step.
\<close>

fun isSetupEvent :: "event \<Rightarrow> bool" where
  "isSetupEvent (EvLock n) = True"
| "isSetupEvent (EvUnlock n) = True"
| "isSetupEvent (EvLookupStoragePoolByName n r) = True"
| "isSetupEvent (EvStoragePoolDefineXML x r) = True"
| "isSetupEvent (EvBuild p r) = True"
| "isSetupEvent e = False"

text \<open>The errors that the first half of a create returns.\<close>

fun isSetupError :: "error \<Rightarrow> bool" where
  "isSetupError ErrUnsupportedType = True"
| "isSetupError (ErrAlreadyExists n) = True"
| "isSetupError ErrDirPathRequired = True"
| "isSetupError ErrDirSourceDevices = True"
| "isSetupError ErrLogicalPath = True"
| "isSetupError (ErrSerializing e) = True"
| "isSetupError (ErrXSLT e) = True"
| "isSetupError (ErrCreating e) = True"
| "isSetupError (ErrBuilding e) = True"
| "isSetupError e = False"

section \<open>Properties of a run\<close>

text \<open>A result that is no error of the first half of a create.\<close>

definition okOrLate :: "error option \<Rightarrow> bool" where
  "okOrLate res = (case res of None \<Rightarrow> True | Some e \<Rightarrow> \<not> isSetupError e)"

text \<open>
  The identifier is recorded at once: wherever the events \<open>evs\<close> show that the pool
  returned its UUID, the very next event writes it as the resource identifier and the
  wait for the pool comes after; a failed wait leaves it in place, and at the end the
  identifier is the UUID unless the final read found no pool under it and cleared it.
\<close>

definition recordsId :: "event list \<Rightarrow> error option \<Rightarrow> ResourceData \<Rightarrow> bool" where
  "recordsId evs res d' =
     (\<forall>p poolId. EvGetUUIDString p (Inr poolId) \<in> set evs \<longrightarrow>
        (\<exists>pre rw post. evs = pre @ EvGetUUIDString p (Inr poolId) # EvSetId poolId
                                  # EvWaitForExists poolId rw # post)
        \<and> (\<forall>m. res = Some (ErrWaitForExists m) \<longrightarrow> IdStr d' = poolId)
        \<and> (IdStr d' = poolId
             \<or> (IdStr d' = [] \<and> (\<exists>e. EvLookupStoragePoolByUUIDString poolId (Inl e) \<in> set evs))))"

text \<open>The target path and the source devices of a definition, empty when absent.\<close>

definition targetPath :: "StoragePoolXML \<Rightarrow> string" where
  "targetPath poolDef = (case Target poolDef of None \<Rightarrow> [] | Some t \<Rightarrow> TargetPath t)"


text \<open>
  What a read surfaces of the definition: when the events \<open>evs\<close> show a description
  that parses, the run ends without error, the path is the target path of a definition
  that is not logical and has one, and the type is the type of the definition unless
  that is empty; the path and the type change in no other run.
\<close>

definition surfacesDef ::
  "Package \<Rightarrow> event list \<Rightarrow> error option \<Rightarrow> ResourceData \<Rightarrow> ResourceData \<Rightarrow> bool" where
  "surfacesDef pkg evs res d d' =
     ((\<forall>pool desc poolDef.
          EvGetXMLDesc pool (Inr desc) \<in> set evs \<and> xmlUnmarshal pkg desc = (None, poolDef) \<longrightarrow>
            res = None
            \<and> attr_path d' = (if Type poolDef \<noteq> ''logical'' \<and> targetPath poolDef \<noteq> []
                               then targetPath poolDef else attr_path d)
            \<and> attr_type d' = (if Type poolDef = [] then attr_type d else Type poolDef))
      \<and> (attr_path d' \<noteq> attr_path d \<or> attr_type d' \<noteq> attr_type d \<longrightarrow>
            (\<exists>pool desc poolDef. EvGetXMLDesc pool (Inr desc) \<in> set evs
                \<and> xmlUnmarshal pkg desc = (None, poolDef))))"

text \<open>
  The events \<open>evs\<close> of a create after the definition was accepted: the build step
  first when it is needed, a failure of it ending the run, then autostart.
\<close>

definition poolSteps ::
  "StoragePool \<Rightarrow> bool \<Rightarrow> event list \<Rightarrow> error option \<Rightarrow> ResourceData \<Rightarrow> ResourceData \<Rightarrow> bool" where
  "poolSteps pool needToBuild evs res d d' =
     (recordsId evs res d' \<and>
      (if needToBuild
       then (\<exists>rb rest. evs = EvBuild pool rb # rest \<and> filter isSetupEvent rest = [] \<and>
               (case rb of
                  Some e \<Rightarrow> res = Some (ErrBuilding e) \<and> rest = [] \<and> d' = d
                | None \<Rightarrow> okOrLate res \<and> (\<exists>r1 rest'. rest = EvSetAutostart pool True r1 # rest')))
       else filter isSetupEvent evs = [] \<and> okOrLate res
              \<and> (\<exists>r1 rest. evs = EvSetAutostart pool True r1 # rest)))"

text \<open>
  The runs of a create that starts with an empty log: refused before the lock; the
  name in use; refused or not serialised after the check of the name; the definition
  rejected by the hypervisor; the definition accepted.
\<close>

definition createOutcome ::
  "Package \<Rightarrow> ResourceData \<Rightarrow> error option \<Rightarrow> ResourceData \<Rightarrow> event list \<Rightarrow> bool" where
  "createOutcome pkg d res d' tr' =
     ((tr' = [] \<and> d' = d \<and> (res = Some ErrLibVirtConIsNil \<or> res = Some ErrUnsupportedType))
    \<or> (\<exists>pool. tr' = [EvLock (attr_name d),
                       EvLookupStoragePoolByName (attr_name d) (Inr pool),
                       EvUnlock (attr_name d)]
          \<and> d' = d \<and> res = Some (ErrAlreadyExists (attr_name d)))
    \<or> (\<exists>virErr e. tr' = [EvLock (attr_name d),
                          EvLookupStoragePoolByName (attr_name d) (Inl virErr),
                          EvUnlock (attr_name d)]
          \<and> d' = d \<and> res = Some e
          \<and> (e = ErrDirPathRequired \<or> e = ErrDirSourceDevices \<or> e = ErrLogicalPath
               \<or> (\<exists>m. e = ErrSerializing m) \<or> (\<exists>m. e = ErrXSLT m)))
    \<or> (\<exists>virErr poolDef needToBuild data0 data.
          (attr_type d = ''dir'' \<or> attr_type d = ''logical'')
          \<and> buildPoolDef d = Inr (poolDef, needToBuild)
          \<and> xmlMarshallIndented pkg poolDef = Inr data0
          \<and> transformResourceXML pkg data0 d = Inr data
          \<and> ((\<exists>e. tr' = [EvLock (attr_name d),
                           EvLookupStoragePoolByName (attr_name d) (Inl virErr),
                           EvStoragePoolDefineXML data (Inl e),
                           EvUnlock (attr_name d)]
                   \<and> d' = d \<and> res = Some (ErrCreating e))
              \<or> (\<exists>pool evs. tr' = [EvLock (attr_name d),
                                    EvLookupStoragePoolByName (attr_name d) (Inl virErr),
                                    EvStoragePoolDefineXML data (Inr pool)]
                                   @ evs @ [EvFree pool, EvUnlock (attr_name d)]
                   \<and> poolSteps pool needToBuild evs res d d'
                   \<and> surfacesDef pkg evs res d d'))))"


section \<open>Sample collaborators\<close>

text \<open>
  Two errors of the bindings, three pool definitions with their serialised forms, a
  package whose encoder and decoder know these forms, and a hypervisor on which the
  pool \<open>pool1\<close> is not defined yet and every call succeeds. The other samples change
  one answer of these.
\<close>

definition errNoPool :: virError where
  "errNoPool = \<lparr>Code = ERR_NO_STORAGE_POOL, ErrorText = ''Storage pool not found''\<rparr>"

definition errRPC :: virError where
  "errRPC = \<lparr>Code = 39, ErrorText = ''connection reset by peer''\<rparr>"

definition sampleDirDef :: StoragePoolXML where
  "sampleDirDef = \<lparr>Type = ''dir'', Name = ''pool1'', Source = None,
                    Target = Some \<lparr>TargetPath = ''/tmp/x''\<rparr>\<rparr>"

definition sampleLogicalDef :: StoragePoolXML where
  "sampleLogicalDef = \<lparr>Type = ''logical'', Name = ''vg0'',
                        Source = Some \<lparr>Device = [\<lparr>DevicePath = ''/dev/sdb''\<rparr>]\<rparr>,
                        Target = None\<rparr>"

definition sampleVgDef :: StoragePoolXML where
  "sampleVgDef = \<lparr>Type = ''logical'', Name = ''vg0'', Source = None, Target = None\<rparr>"

definition sampleVgTargetDef :: StoragePoolXML where
  "sampleVgTargetDef = \<lparr>Type = ''logical'', Name = ''vg0'', Source = None,
                         Target = Some \<lparr>TargetPath = ''/dev/vg0''\<rparr>\<rparr>"

definition sampleDirXML :: string where
  "sampleDirXML =
     ''<pool type='' @ dq @ ''dir'' @ dq
       @ ''><name>pool1</name><target><path>/tmp/x</path></target></pool>''"

definition sampleLogicalXML :: string where
  "sampleLogicalXML =
     ''<pool type='' @ dq @ ''logical'' @ dq @ ''><name>vg0</name><source><device path=''
       @ dq @ ''/dev/sdb'' @ dq @ ''></device></source></pool>''"

definition sampleVgXML :: string where
  "sampleVgXML = ''<pool type='' @ dq @ ''logical'' @ dq @ ''><name>vg0</name></pool>''"

definition sampleVgTargetXML :: string where
  "sampleVgTargetXML =
     ''<pool type='' @ dq @ ''logical'' @ dq
       @ ''><name>vg0</name><target><path>/dev/vg0</path></target></pool>''"

definition samplePackage :: Package where
  "samplePackage =
     \<lparr>LibVirtConIsNil = ''the libvirt connection was nil'',
      xmlMarshallIndented =
        (\<lambda>poolDef. if poolDef = sampleDirDef then Inr sampleDirXML
                   else if poolDef = sampleLogicalDef then Inr sampleLogicalXML
                   else if poolDef = sampleVgDef then Inr sampleVgXML
                   else if poolDef = sampleVgTargetDef then Inr sampleVgTargetXML
                   else Inl ''unsupported definition''),
      transformResourceXML = (\<lambda>data d. Inr data),
      xmlUnmarshal =
        (\<lambda>s. if s = sampleDirXML then (None, sampleDirDef)
              else if s = sampleLogicalXML then (None, sampleLogicalDef)
              else if s = sampleVgXML then (None, sampleVgDef)
              else if s = sampleVgTargetXML then (None, sampleVgTargetDef)
              else (Some ''EOF'', emptyStoragePoolXML)),
      poolWaitForExists = (\<lambda>virConn tr uuid. None)\<rparr>"

definition sampleConnect :: Connect where
  "sampleConnect =
     \<lparr>LookupStoragePoolByName = (\<lambda>tr n. Inl errNoPool),
      LookupStoragePoolByUUIDString = (\<lambda>tr u. Inr (StoragePoolPtr 1)),
      StoragePoolDefineXML = (\<lambda>tr x. Inr (StoragePoolPtr 1)),
      Build = (\<lambda>tr p. None),
      SetAutostart = (\<lambda>tr p b. None),
      Create = (\<lambda>tr p. None),
      Refresh = (\<lambda>tr p. None),
      GetUUIDString = (\<lambda>tr p. Inr ''uuid-1''),
      GetName = (\<lambda>tr p. Inr ''pool1''),
      GetInfo = (\<lambda>tr p. Inr \<lparr>Capacity = 100, Allocation = 40, Available = 60\<rparr>),
      GetXMLDesc = (\<lambda>tr p. Inr sampleDirXML),
      IsActive = (\<lambda>tr p. Inr True),
      Destroy = (\<lambda>tr p. None),
      Undefine = (\<lambda>tr p. None)\<rparr>"

definition sampleClient :: Client where
  "sampleClient = \<lparr>libvirt = Some sampleConnect\<rparr>"

text \<open>A hypervisor on which the pool name is taken.\<close>

definition takenConnect :: Connect where
  "takenConnect = sampleConnect\<lparr>LookupStoragePoolByName := (\<lambda>tr n. Inr (StoragePoolPtr 7))\<rparr>"

text \<open>Hypervisors that find no pool under the identifier, or cannot be reached.\<close>

definition goneConnect :: Connect where
  "goneConnect = sampleConnect\<lparr>LookupStoragePoolByUUIDString := (\<lambda>tr u. Inl errNoPool)\<rparr>"

definition downConnect :: Connect where
  "downConnect = sampleConnect\<lparr>LookupStoragePoolByUUIDString := (\<lambda>tr u. Inl errRPC)\<rparr>"

text \<open>A hypervisor on which the build step fails.\<close>

definition noBuildConnect :: Connect where
  "noBuildConnect = sampleConnect\<lparr>Build := (\<lambda>tr p. Some errRPC)\<rparr>"

text \<open>A hypervisor that describes a volume group, with the path it generated.\<close>

definition vgConnect :: Connect where
  "vgConnect = sampleConnect\<lparr>GetName := (\<lambda>tr p. Inr ''vg0''),
                              GetXMLDesc := (\<lambda>tr p. Inr sampleVgTargetXML)\<rparr>"

text \<open>A package whose wait for the created pool runs out of time.\<close>

definition timeoutPackage :: Package where
  "timeoutPackage = samplePackage\<lparr>poolWaitForExists := (\<lambda>virConn tr uuid. Some ''timeout'')\<rparr>"

text \<open>
  A stylesheet that copies a definition and renames the pool to \<open>pool2\<close>, the
  definition of the sample directory pool under that name, and a package whose
  transformation applies this stylesheet when it is the one declared.
\<close>

definition sampleStylesheet :: string where
  "sampleStylesheet =
     ''<xsl:stylesheet version='' @ dq @ ''1.0'' @ dq @ '' xmlns:xsl='' @ dq
       @ ''http://www.w3.org/1999/XSL/Transform'' @ dq
       @ ''><xsl:template match='' @ dq @ ''node()|@*'' @ dq
       @ ''><xsl:copy><xsl:apply-templates select='' @ dq @ ''node()|@*'' @ dq
       @ ''/></xsl:copy></xsl:template><xsl:template match='' @ dq @ ''/pool/name/text()'' @ dq
       @ ''>pool2</xsl:template></xsl:stylesheet>''"

definition sampleRenamedDef :: StoragePoolXML where
  "sampleRenamedDef = \<lparr>Type = ''dir'', Name = ''pool2'', Source = None,
                        Target = Some \<lparr>TargetPath = ''/tmp/x''\<rparr>\<rparr>"

definition sampleRenamedXML :: string where
  "sampleRenamedXML =
     ''<pool type='' @ dq @ ''dir'' @ dq
       @ ''><name>pool2</name><target><path>/tmp/x</path></target></pool>''"

definition xsltPackage :: Package where
  "xsltPackage =
     samplePackage
       \<lparr>transformResourceXML :=
          (\<lambda>data d. if attr_xslt d = [] then Inr data
                     else if attr_xslt d = sampleStylesheet \<and> data = sampleDirXML
                     then Inr sampleRenamedXML
                     else Inl ''xsltproc failed''),
        xmlUnmarshal :=
          (\<lambda>s. if s = sampleRenamedXML then (None, sampleRenamedDef)
                else xmlUnmarshal samplePackage s)\<rparr>"

text \<open>
  A pool name that is the one character U+0001, which XML cannot hold: the encoder
  writes the replacement character U+FFFD (three bytes in UTF-8) in its place, and the
  decoder reads that character back.
\<close>

definition sampleCtrlName :: string where
  "sampleCtrlName = [CHR 0x01]"

definition sampleReplacedName :: string where
  "sampleReplacedName = [CHR 0xEF, CHR 0xBF, CHR 0xBD]"

definition sampleCtrlDef :: StoragePoolXML where
  "sampleCtrlDef = \<lparr>Type = ''dir'', Name = sampleCtrlName, Source = None,
                     Target = Some \<lparr>TargetPath = ''/tmp/x''\<rparr>\<rparr>"

definition sampleReplacedDef :: StoragePoolXML where
  "sampleReplacedDef = \<lparr>Type = ''dir'', Name = sampleReplacedName, Source = None,
                         Target = Some \<lparr>TargetPath = ''/tmp/x''\<rparr>\<rparr>"

definition sampleReplacedXML :: string where
  "sampleReplacedXML =
     ''<pool type='' @ dq @ ''dir'' @ dq @ ''><name>'' @ sampleReplacedName
       @ ''</name><target><path>/tmp/x</path></target></pool>''"

definition lossyPackage :: Package where
  "lossyPackage =
     samplePackage
       \<lparr>xmlMarshallIndented :=
          (\<lambda>poolDef. if poolDef = sampleCtrlDef then Inr sampleReplacedXML
                     else xmlMarshallIndented samplePackage poolDef),
        xmlUnmarshal :=
          (\<lambda>s. if s = sampleReplacedXML then (None, sampleReplacedDef)
                else xmlUnmarshal samplePackage s)\<rparr>"

definition emptyResourceData :: ResourceData where
  "emptyResourceData =
     \<lparr>IdStr = [], attr_name = [], attr_type = [], attr_capacity = 0, attr_allocation = 0,
      attr_available = [], attr_xslt = [], attr_path = [], attr_source_devices = [],
      partial = False, partialMap = []\<rparr>"

definition sampleDirData :: ResourceData where
  "sampleDirData = emptyResourceData\<lparr>attr_name := ''pool1'', attr_type := ''dir'',
                                     attr_path := ''/tmp/x''\<rparr>"

definition sampleNoPathData :: ResourceData where
  "sampleNoPathData = emptyResourceData\<lparr>attr_name := ''pool1'', attr_type := ''dir''\<rparr>"

definition sampleVgData :: ResourceData where
  "sampleVgData = emptyResourceData\<lparr>attr_name := ''vg0'', attr_type := ''logical''\<rparr>"

definition sampleReadData :: ResourceData where
  "sampleReadData = emptyResourceData\<lparr>IdStr := ''uuid-1''\<rparr>"

definition sampleXsltData :: ResourceData where
  "sampleXsltData = sampleDirData\<lparr>attr_xslt := sampleStylesheet\<rparr>"

definition sampleCtrlData :: ResourceData where
  "sampleCtrlData = sampleDirData\<lparr>attr_name := sampleCtrlName\<rparr>"

section \<open>The shape of a run\<close>

lemma readPool_outcome:
  assumes "readPool pkg virConn d tr pool = (res, d', tr')"
  shows "\<exists>evs. tr' = tr @ evs \<and> filter isSetupEvent evs = [] \<and> okOrLate res \<and> IdStr d' = IdStr d
          \<and> (\<forall>m. res \<noteq> Some (ErrWaitForExists m))
          \<and> (\<forall>p i. EvGetUUIDString p i \<notin> set evs)"
  using assms
  by (auto simp add: readPool_def okOrLate_def Let_def split: sum.splits option.splits prod.splits if_splits)

lemma read_outcome:
  assumes "resourceLibvirtPoolRead pkg client d tr = (res, d', tr')"
  shows "\<exists>evs. tr' = tr @ evs \<and> filter isSetupEvent evs = [] \<and> okOrLate res
          \<and> (\<forall>m. res \<noteq> Some (ErrWaitForExists m))
          \<and> (\<forall>p i. EvGetUUIDString p i \<notin> set evs)
          \<and> (IdStr d' = IdStr d
               \<or> (IdStr d' = [] \<and> (\<exists>e. EvLookupStoragePoolByUUIDString (IdStr d) (Inl e) \<in> set evs)))"
proof (cases "libvirt client")
  case None
  with assms show ?thesis
    by (auto simp add: resourceLibvirtPoolRead_def okOrLate_def)
next
  case (Some virConn)
  show ?thesis
  proof (cases "LookupStoragePoolByUUIDString virConn tr (IdStr d)")
    case (Inl e)
    with Some assms show ?thesis
      by (auto simp add: resourceLibvirtPoolRead_def okOrLate_def SetId_def Let_def)
  next
    case (Inr pool)
    obtain r0 d0 tr0 where rp: "readPool pkg virConn d
        (tr @ [EvLookupStoragePoolByUUIDString (IdStr d) (Inr pool)]) pool = (r0, d0, tr0)"
      by (cases "readPool pkg virConn d
        (tr @ [EvLookupStoragePoolByUUIDString (IdStr d) (Inr pool)]) pool") auto
    from readPool_outcome [OF rp] obtain evs where
      e: "tr0 = (tr @ [EvLookupStoragePoolByUUIDString (IdStr d) (Inr pool)]) @ evs"
         "filter isSetupEvent evs = []" "okOrLate r0" "IdStr d0 = IdStr d"
         "\<forall>m. r0 \<noteq> Some (ErrWaitForExists m)" "\<forall>p i. EvGetUUIDString p i \<notin> set evs"
      by blast
    from Some Inr rp assms have "res = r0" "d' = d0" "tr' = tr0 @ [EvFree pool]"
      by (simp_all add: resourceLibvirtPoolRead_def Let_def)
    with e show ?thesis by auto
  qed
qed

lemma recordsId_none:
  "\<forall>p i. EvGetUUIDString p (Inr i) \<notin> set evs \<Longrightarrow> recordsId evs res d'"
  by (simp add: recordsId_def)

lemma recordsId_Cons:
  assumes "recordsId evs res d'" and "\<forall>p i. a \<noteq> EvGetUUIDString p (Inr i)"
  shows "recordsId (a # evs) res d'"
  unfolding recordsId_def
proof (intro allI impI)
  fix p poolId
  assume "EvGetUUIDString p (Inr poolId) \<in> set (a # evs)"
  with assms(2) have m: "EvGetUUIDString p (Inr poolId) \<in> set evs" by auto
  with assms(1) obtain pre rw post where
    sh: "evs = pre @ EvGetUUIDString p (Inr poolId) # EvSetId poolId # EvWaitForExists poolId rw # post"
    unfolding recordsId_def by blast
  then have "a # evs = (a # pre) @ EvGetUUIDString p (Inr poolId) # EvSetId poolId
                # EvWaitForExists poolId rw # post" by simp
  then have 1: "\<exists>pre rw post. a # evs = pre @ EvGetUUIDString p (Inr poolId) # EvSetId poolId
                # EvWaitForExists poolId rw # post" by blast
  from m assms(1) have 2: "\<forall>m. res = Some (ErrWaitForExists m) \<longrightarrow> IdStr d' = poolId"
    and 3: "IdStr d' = poolId
             \<or> (IdStr d' = [] \<and> (\<exists>e. EvLookupStoragePoolByUUIDString poolId (Inl e) \<in> set evs))"
    unfolding recordsId_def by blast+
  from 3 have "IdStr d' = poolId
             \<or> (IdStr d' = [] \<and> (\<exists>e. EvLookupStoragePoolByUUIDString poolId (Inl e) \<in> set (a # evs)))"
    by auto
  with 1 2 show "(\<exists>pre rw post. a # evs = pre @ EvGetUUIDString p (Inr poolId) # EvSetId poolId
                # EvWaitForExists poolId rw # post)
        \<and> (\<forall>m. res = Some (ErrWaitForExists m) \<longrightarrow> IdStr d' = poolId)
        \<and> (IdStr d' = poolId
             \<or> (IdStr d' = [] \<and> (\<exists>e. EvLookupStoragePoolByUUIDString poolId (Inl e) \<in> set (a # evs))))"
    by blast
qed

lemma recordsId_snoc:
  assumes "recordsId evs res d'" and "\<forall>p i. a \<noteq> EvGetUUIDString p (Inr i)"
  shows "recordsId (evs @ [a]) res d'"
  unfolding recordsId_def
proof (intro allI impI)
  fix p poolId
  assume "EvGetUUIDString p (Inr poolId) \<in> set (evs @ [a])"
  with assms(2) have m: "EvGetUUIDString p (Inr poolId) \<in> set evs" by auto
  with assms(1) obtain pre rw post where
    sh: "evs = pre @ EvGetUUIDString p (Inr poolId) # EvSetId poolId # EvWaitForExists poolId rw # post"
    unfolding recordsId_def by blast
  then have "evs @ [a] = pre @ EvGetUUIDString p (Inr poolId) # EvSetId poolId
                # EvWaitForExists poolId rw # (post @ [a])" by simp
  then have 1: "\<exists>pre rw post. evs @ [a] = pre @ EvGetUUIDString p (Inr poolId) # EvSetId poolId
                # EvWaitForExists poolId rw # post" by blast
  from m assms(1) have 2: "\<forall>m. res = Some (ErrWaitForExists m) \<longrightarrow> IdStr d' = poolId"
    and 3: "IdStr d' = poolId
             \<or> (IdStr d' = [] \<and> (\<exists>e. EvLookupStoragePoolByUUIDString poolId (Inl e) \<in> set evs))"
    unfolding recordsId_def by blast+
  from 3 have "IdStr d' = poolId
             \<or> (IdStr d' = [] \<and> (\<exists>e. EvLookupStoragePoolByUUIDString poolId (Inl e) \<in> set (evs @ [a])))"
    by auto
  with 1 2 show "(\<exists>pre rw post. evs @ [a] = pre @ EvGetUUIDString p (Inr poolId) # EvSetId poolId
                # EvWaitForExists poolId rw # post)
        \<and> (\<forall>m. res = Some (ErrWaitForExists m) \<longrightarrow> IdStr d' = poolId)
        \<and> (IdStr d' = poolId
             \<or> (IdStr d' = [] \<and> (\<exists>e. EvLookupStoragePoolByUUIDString poolId (Inl e) \<in> set (evs @ [a]))))"
    by blast
qed

lemma record_outcome:
  assumes "createRecordId pkg client virConn d tr poolId = (res, d', tr')"
  shows "\<exists>rw evs. tr' = tr @ EvSetId poolId # EvWaitForExists poolId rw # evs
          \<and> filter isSetupEvent evs = [] \<and> okOrLate res
          \<and> (\<forall>p i. EvGetUUIDString p i \<notin> set evs)
          \<and> (\<forall>m. res = Some (ErrWaitForExists m) \<longrightarrow> IdStr d' = poolId)
          \<and> (IdStr d' = poolId
               \<or> (IdStr d' = [] \<and> (\<exists>e. EvLookupStoragePoolByUUIDString poolId (Inl e) \<in> set evs)))"
proof (cases "poolWaitForExists pkg virConn (tr @ [EvSetId poolId]) poolId")
  case (Some m)
  with assms show ?thesis
    by (auto simp add: createRecordId_def Let_def okOrLate_def SetId_def Partial_def SetPartial_def)
next
  case None
  let ?d2 = "Partial False (SetPartial ''id'' (Partial True (SetId poolId d)))"
  have id2: "IdStr ?d2 = poolId"
    by (simp add: SetId_def Partial_def SetPartial_def)
  from None assms have rd: "resourceLibvirtPoolRead pkg client ?d2
      (tr @ [EvSetId poolId, EvWaitForExists poolId None]) = (res, d', tr')"
    by (simp add: createRecordId_def Let_def)
  from read_outcome [OF rd] id2 obtain evs where
    "tr' = (tr @ [EvSetId poolId, EvWaitForExists poolId None]) @ evs"
    "filter isSetupEvent evs = []" "okOrLate res"
    "\<forall>m. res \<noteq> Some (ErrWaitForExists m)" "\<forall>p i. EvGetUUIDString p i \<notin> set evs"
    "IdStr d' = poolId
       \<or> (IdStr d' = [] \<and> (\<exists>e. EvLookupStoragePoolByUUIDString poolId (Inl e) \<in> set evs))"
    by auto
  then show ?thesis by auto
qed

lemma activate_outcome:
  assumes "createActivate pkg client virConn d tr pool = (res, d', tr')"
  shows "\<exists>r1 evs. tr' = tr @ EvSetAutostart pool True r1 # evs
          \<and> filter isSetupEvent evs = [] \<and> okOrLate res \<and> recordsId evs res d'"
proof (cases "\<exists>tr4 poolId. createRecordId pkg client virConn d tr4 poolId = (res, d', tr')
     \<and> tr4 = tr @ [EvSetAutostart pool True None, EvCreate pool None, EvRefresh pool None,
                    EvGetUUIDString pool (Inr poolId)]")
  case True
  then obtain tr4 poolId where
    cr: "createRecordId pkg client virConn d tr4 poolId = (res, d', tr')"
    and t4: "tr4 = tr @ [EvSetAutostart pool True None, EvCreate pool None, EvRefresh pool None,
                    EvGetUUIDString pool (Inr poolId)]"
    by blast
  from record_outcome [OF cr] obtain rw evs where
    o: "tr' = tr4 @ EvSetId poolId # EvWaitForExists poolId rw # evs"
       "filter isSetupEvent evs = []" "okOrLate res"
       "\<forall>p i. EvGetUUIDString p i \<notin> set evs"
       "\<forall>m. res = Some (ErrWaitForExists m) \<longrightarrow> IdStr d' = poolId"
       "IdStr d' = poolId
          \<or> (IdStr d' = [] \<and> (\<exists>e. EvLookupStoragePoolByUUIDString poolId (Inl e) \<in> set evs))"
    by blast
  let ?evs = "[EvCreate pool None, EvRefresh pool None] @ EvGetUUIDString pool (Inr poolId)
               # EvSetId poolId # EvWaitForExists poolId rw # evs"
  have 1: "tr' = tr @ EvSetAutostart pool True None # ?evs"
    using o(1) t4 by simp
  have 2: "filter isSetupEvent ?evs = []" using o(2) by simp
  have 3: "recordsId ?evs res d'"
    unfolding recordsId_def
  proof (intro allI impI)
    fix p i
    assume "EvGetUUIDString p (Inr i) \<in> set ?evs"
    with o(4) have pi: "p = pool" "i = poolId" by auto
    from o(6) have "IdStr d' = poolId
          \<or> (IdStr d' = [] \<and> (\<exists>e. EvLookupStoragePoolByUUIDString poolId (Inl e) \<in> set ?evs))"
      by auto
    with pi o(5) show "(\<exists>pre rw' post. ?evs = pre @ EvGetUUIDString p (Inr i) # EvSetId i
                                  # EvWaitForExists i rw' # post)
        \<and> (\<forall>m. res = Some (ErrWaitForExists m) \<longrightarrow> IdStr d' = i)
        \<and> (IdStr d' = i
             \<or> (IdStr d' = [] \<and> (\<exists>e. EvLookupStoragePoolByUUIDString i (Inl e) \<in> set ?evs)))"
      by blast
  qed
  from 1 2 3 o(3) show ?thesis by blast
next
  case False
  with assms have "\<exists>r1 evs. tr' = tr @ EvSetAutostart pool True r1 # evs
          \<and> filter isSetupEvent evs = [] \<and> okOrLate res
          \<and> (\<forall>p i. EvGetUUIDString p (Inr i) \<notin> set evs)"
    by (auto simp add: createActivate_def Let_def okOrLate_def split: option.splits sum.splits)
  then show ?thesis using recordsId_none by blast
qed

lemma pool_outcome:
  assumes "createPool pkg client virConn d tr pool needToBuild = (res, d', tr')"
  shows "\<exists>evs. tr' = tr @ evs \<and> poolSteps pool needToBuild evs res d d'"
proof (cases needToBuild)
  case False
  with assms have "createActivate pkg client virConn d tr pool = (res, d', tr')"
    by (simp add: createPool_def)
  from activate_outcome [OF this] obtain r1 evs where
    o: "tr' = tr @ EvSetAutostart pool True r1 # evs"
       "filter isSetupEvent evs = []" "okOrLate res" "recordsId evs res d'"
    by blast
  have "recordsId (EvSetAutostart pool True r1 # evs) res d'"
    by (intro recordsId_Cons o(4)) simp
  with o False show ?thesis
    by (simp add: poolSteps_def)
next
  case True
  show ?thesis
  proof (cases "Build virConn tr pool")
    case (Some e)
    with True assms have "tr' = tr @ [EvBuild pool (Some e)]" "res = Some (ErrBuilding e)" "d' = d"
      by (simp_all add: createPool_def Let_def)
    with True show ?thesis
      by (simp add: poolSteps_def recordsId_def)
  next
    case None
    with True assms have
      "createActivate pkg client virConn d (tr @ [EvBuild pool None]) pool = (res, d', tr')"
      by (simp add: createPool_def Let_def)
    from activate_outcome [OF this] obtain r1 evs where
      o: "tr' = (tr @ [EvBuild pool None]) @ EvSetAutostart pool True r1 # evs"
         "filter isSetupEvent evs = []" "okOrLate res" "recordsId evs res d'"
      by blast
    have "recordsId (EvBuild pool None # EvSetAutostart pool True r1 # evs) res d'"
      by (intro recordsId_Cons o(4)) simp_all
    with o True show ?thesis
      by (simp add: poolSteps_def)
  qed
qed

lemma surfaces_none:
  "\<forall>p x. EvGetXMLDesc p (Inr x) \<notin> set evs \<Longrightarrow> attr_path d' = attr_path d
     \<Longrightarrow> attr_type d' = attr_type d \<Longrightarrow> surfacesDef pkg evs res d d'"
  by (simp add: surfacesDef_def)

lemma surfaces_cong:
  assumes "surfacesDef pkg evs res d0 d'"
      and "\<forall>p x. (EvGetXMLDesc p (Inr x) \<in> set evs') = (EvGetXMLDesc p (Inr x) \<in> set evs)"
      and "attr_path d0 = attr_path d" and "attr_type d0 = attr_type d"
  shows "surfacesDef pkg evs' res d d'"
  using assms unfolding surfacesDef_def by simp

lemma readPool_surfaces:
  assumes "readPool pkg virConn d tr pool = (res, d', tr')"
  shows "\<exists>evs. tr' = tr @ evs \<and> surfacesDef pkg evs res d d'"
proof (cases "\<exists>n i desc. GetName virConn tr pool = Inr n
     \<and> GetInfo virConn (tr @ [EvGetName pool (Inr n)]) pool = Inr i
     \<and> GetXMLDesc virConn (tr @ [EvGetName pool (Inr n), EvGetInfo pool (Inr i)]) pool = Inr desc")
  case False
  with assms have "\<exists>evs. tr' = tr @ evs \<and> (\<forall>p x. EvGetXMLDesc p (Inr x) \<notin> set evs)
      \<and> attr_path d' = attr_path d \<and> attr_type d' = attr_type d"
    by (auto simp add: readPool_def Let_def split: sum.splits)
  then show ?thesis using surfaces_none by blast
next
  case True
  then obtain n i desc where g: "GetName virConn tr pool = Inr n"
     "GetInfo virConn (tr @ [EvGetName pool (Inr n)]) pool = Inr i"
     "GetXMLDesc virConn (tr @ [EvGetName pool (Inr n), EvGetInfo pool (Inr i)]) pool = Inr desc"
    by blast
  obtain err poolDef where u: "xmlUnmarshal pkg desc = (err, poolDef)"
    by (cases "xmlUnmarshal pkg desc") auto
  let ?evs = "[EvGetName pool (Inr n), EvGetInfo pool (Inr i), EvGetXMLDesc pool (Inr desc)]"
  from g u assms have t: "tr' = tr @ ?evs"
    by (cases err) (simp_all add: readPool_def Let_def)
  have "surfacesDef pkg ?evs res d d'"
  proof (cases err)
    case (Some m)
    with g u assms show ?thesis
      by (auto simp add: readPool_def Let_def surfacesDef_def)
  next
    case None
    with g u assms show ?thesis
      by (cases "Target poolDef")
         (auto simp add: readPool_def Let_def surfacesDef_def targetPath_def)
  qed
  with t show ?thesis by blast
qed

lemma read_surfaces:
  assumes "resourceLibvirtPoolRead pkg client d tr = (res, d', tr')"
  shows "\<exists>evs. tr' = tr @ evs \<and> surfacesDef pkg evs res d d'"
proof (cases "libvirt client")
  case None
  with assms have "tr' = tr @ []" "d' = d"
    by (simp_all add: resourceLibvirtPoolRead_def)
  then show ?thesis using surfaces_none [of "[]" d' d] by auto
next
  case (Some virConn)
  show ?thesis
  proof (cases "LookupStoragePoolByUUIDString virConn tr (IdStr d)")
    case (Inl e)
    let ?evs = "[EvLookupStoragePoolByUUIDString (IdStr d) (Inl e), EvSetId []]"
    from Some Inl assms have "tr' = tr @ ?evs" "d' = SetId [] d"
      by (simp_all add: resourceLibvirtPoolRead_def Let_def)
    moreover have "surfacesDef pkg ?evs res d (SetId [] d)"
      by (rule surfaces_none) (simp_all add: SetId_def)
    ultimately show ?thesis by blast
  next
    case (Inr pool)
    obtain r0 d0 tr0 where rp: "readPool pkg virConn d
        (tr @ [EvLookupStoragePoolByUUIDString (IdStr d) (Inr pool)]) pool = (r0, d0, tr0)"
      by (cases "readPool pkg virConn d
        (tr @ [EvLookupStoragePoolByUUIDString (IdStr d) (Inr pool)]) pool") auto
    from readPool_surfaces [OF rp] obtain evs where
      e: "tr0 = (tr @ [EvLookupStoragePoolByUUIDString (IdStr d) (Inr pool)]) @ evs"
         "surfacesDef pkg evs r0 d d0"
      by blast
    from Some Inr rp assms have f: "res = r0" "d' = d0" "tr' = tr0 @ [EvFree pool]"
      by (simp_all add: resourceLibvirtPoolRead_def Let_def)
    have "surfacesDef pkg (EvLookupStoragePoolByUUIDString (IdStr d) (Inr pool) # evs @ [EvFree pool])
            r0 d d0"
      by (rule surfaces_cong [OF e(2)]) auto
    with e f show ?thesis by auto
  qed
qed

lemma record_surfaces:
  assumes "createRecordId pkg client virConn d tr poolId = (res, d', tr')"
  shows "\<exists>evs. tr' = tr @ evs \<and> surfacesDef pkg evs res d d'"
proof (cases "poolWaitForExists pkg virConn (tr @ [EvSetId poolId]) poolId")
  case (Some m)
  let ?evs = "[EvSetId poolId, EvWaitForExists poolId (Some m)]"
  let ?d2 = "Partial False (SetPartial ''id'' (Partial True (SetId poolId d)))"
  from Some assms have "tr' = tr @ ?evs" "d' = ?d2"
    by (simp_all add: createRecordId_def Let_def)
  moreover have "surfacesDef pkg ?evs res d ?d2"
    by (rule surfaces_none) (simp_all add: SetId_def Partial_def SetPartial_def)
  ultimately show ?thesis by blast
next
  case None
  let ?d2 = "Partial False (SetPartial ''id'' (Partial True (SetId poolId d)))"
  from None assms have rd: "resourceLibvirtPoolRead pkg client ?d2
      (tr @ [EvSetId poolId, EvWaitForExists poolId None]) = (res, d', tr')"
    by (simp add: createRecordId_def Let_def)
  from read_surfaces [OF rd] obtain evs where
    e: "tr' = (tr @ [EvSetId poolId, EvWaitForExists poolId None]) @ evs"
       "surfacesDef pkg evs res ?d2 d'"
    by blast
  have "surfacesDef pkg (EvSetId poolId # EvWaitForExists poolId None # evs) res d d'"
    by (rule surfaces_cong [OF e(2)]) (auto simp add: SetId_def Partial_def SetPartial_def)
  with e show ?thesis by auto
qed

lemma activate_surfaces:
  assumes "createActivate pkg client virConn d tr pool = (res, d', tr')"
  shows "\<exists>evs. tr' = tr @ evs \<and> surfacesDef pkg evs res d d'"
proof (cases "\<exists>tr4 poolId. createRecordId pkg client virConn d tr4 poolId = (res, d', tr')
     \<and> tr4 = tr @ [EvSetAutostart pool True None, EvCreate pool None, EvRefresh pool None,
                    EvGetUUIDString pool (Inr poolId)]")
  case True
  then obtain tr4 poolId where
    cr: "createRecordId pkg client virConn d tr4 poolId = (res, d', tr')"
    and t4: "tr4 = tr @ [EvSetAutostart pool True None, EvCreate pool None, EvRefresh pool None,
                    EvGetUUIDString pool (Inr poolId)]"
    by blast
  from record_surfaces [OF cr] obtain evs where
    e: "tr' = tr4 @ evs" "surfacesDef pkg evs res d d'" by blast
  have "surfacesDef pkg ([EvSetAutostart pool True None, EvCreate pool None, EvRefresh pool None,
                    EvGetUUIDString pool (Inr poolId)] @ evs) res d d'"
    by (rule surfaces_cong [OF e(2)]) auto
  with e t4 show ?thesis by auto
next
  case False
  with assms have "\<exists>evs. tr' = tr @ evs \<and> (\<forall>p x. EvGetXMLDesc p (Inr x) \<notin> set evs) \<and> d' = d"
    by (auto simp add: createActivate_def Let_def split: option.splits sum.splits)
  then show ?thesis using surfaces_none [of _ d' d] by auto
qed

lemma pool_surfaces:
  assumes "createPool pkg client virConn d tr pool needToBuild = (res, d', tr')"
  shows "\<exists>evs. tr' = tr @ evs \<and> surfacesDef pkg evs res d d'"
proof (cases "needToBuild")
  case False
  with assms have "createActivate pkg client virConn d tr pool = (res, d', tr')"
    by (simp add: createPool_def)
  from activate_surfaces [OF this] show ?thesis .
next
  case True
  show ?thesis
  proof (cases "Build virConn tr pool")
    case (Some e)
    with True assms have "tr' = tr @ [EvBuild pool (Some e)]" "d' = d"
      by (simp_all add: createPool_def Let_def)
    then show ?thesis using surfaces_none [of "[EvBuild pool (Some e)]" d' d] by auto
  next
    case None
    with True assms have
      "createActivate pkg client virConn d (tr @ [EvBuild pool None]) pool = (res, d', tr')"
      by (simp add: createPool_def Let_def)
    from activate_surfaces [OF this] obtain evs where
      e: "tr' = (tr @ [EvBuild pool None]) @ evs" "surfacesDef pkg evs res d d'" by blast
    have "surfacesDef pkg (EvBuild pool None # evs) res d d'"
      by (rule surfaces_cong [OF e(2)]) auto
    with e show ?thesis by auto
  qed
qed

lemma poolSteps_surfaces:
  assumes "createPool pkg client virConn d tr pool needToBuild = (res, d', tr')"
  shows "\<exists>evs. tr' = tr @ evs \<and> poolSteps pool needToBuild evs res d d' \<and> surfacesDef pkg evs res d d'"
  using pool_outcome [OF assms] pool_surfaces [OF assms] by auto

lemma devicesLoop_eq:
  "devicesLoop d i devices
     = devices @ map (\<lambda>p. \<lparr>DevicePath = p\<rparr>) (drop i (attr_source_devices d))"
proof (induction d i devices rule: devicesLoop.induct)
  case (1 d i devices)
  show ?case
  proof (cases "i < length (attr_source_devices d)")
    case True
    then have "drop i (attr_source_devices d)
        = attr_source_devices d ! i # drop (Suc i) (attr_source_devices d)"
      by (simp add: Cons_nth_drop_Suc)
    with True "1.IH" show ?thesis
      by (subst devicesLoop.simps) simp
  next
    case False
    then show ?thesis
      by (subst devicesLoop.simps) simp
  qed
qed

lemma devicesLoop_all:
  "devicesLoop d 0 [] = map (\<lambda>p. \<lparr>DevicePath = p\<rparr>) (attr_source_devices d)"
  by (simp add: devicesLoop_eq)

lemma buildPoolDef_error:
  "buildPoolDef d = Inl e \<Longrightarrow> e = ErrDirPathRequired \<or> e = ErrDirSourceDevices \<or> e = ErrLogicalPath"
  by (auto simp add: buildPoolDef_def Let_def split: if_splits)

lemma buildPoolDef_needToBuild:
  "buildPoolDef d = Inr (poolDef, needToBuild)
     \<Longrightarrow> needToBuild = (attr_type d = ''dir'' \<or> attr_source_devices d \<noteq> [])"
  by (auto simp add: buildPoolDef_def Let_def devicesLoop_all split: if_splits)



lemma define_outcome:
  assumes "createDefine pkg client virConn d tr poolDef needToBuild = (res, d', tr')"
  shows "(tr' = tr \<and> d' = d \<and> ((\<exists>m. res = Some (ErrSerializing m)) \<or> (\<exists>m. res = Some (ErrXSLT m))))
       \<or> (\<exists>data0 data. xmlMarshallIndented pkg poolDef = Inr data0
             \<and> transformResourceXML pkg data0 d = Inr data
             \<and> ((\<exists>e. tr' = tr @ [EvStoragePoolDefineXML data (Inl e)]
                       \<and> d' = d \<and> res = Some (ErrCreating e))
                \<or> (\<exists>pool evs. tr' = tr @ [EvStoragePoolDefineXML data (Inr pool)] @ evs @ [EvFree pool]
                       \<and> poolSteps pool needToBuild evs res d d'
                       \<and> surfacesDef pkg evs res d d')))"
proof (cases "xmlMarshallIndented pkg poolDef")
  case (Inl m)
  with assms show ?thesis by (auto simp add: createDefine_def)
next
  case m: (Inr data0)
  show ?thesis
  proof (cases "transformResourceXML pkg data0 d")
    case (Inl m')
    with m assms show ?thesis by (auto simp add: createDefine_def)
  next
    case t: (Inr data)
    show ?thesis
    proof (cases "StoragePoolDefineXML virConn tr data")
      case (Inl e)
      with m t assms show ?thesis by (auto simp add: createDefine_def Let_def)
    next
      case (Inr pool)
      obtain r0 d0 tr0 where cp: "createPool pkg client virConn d
          (tr @ [EvStoragePoolDefineXML data (Inr pool)]) pool needToBuild = (r0, d0, tr0)"
        by (cases "createPool pkg client virConn d
          (tr @ [EvStoragePoolDefineXML data (Inr pool)]) pool needToBuild") auto
      from poolSteps_surfaces [OF cp] obtain evs where
        o: "tr0 = (tr @ [EvStoragePoolDefineXML data (Inr pool)]) @ evs"
           "poolSteps pool needToBuild evs r0 d d0" "surfacesDef pkg evs r0 d d0"
        by blast
      from m t Inr cp assms have "res = r0" "d' = d0" "tr' = tr0 @ [EvFree pool]"
        by (simp_all add: createDefine_def Let_def)
      with o m t show ?thesis by auto
    qed
  qed
qed

lemma create_outcome:
  assumes "resourceLibvirtPoolCreate pkg client d [] = (res, d', tr')"
  shows "createOutcome pkg d res d' tr'"
proof (cases "libvirt client")
  case None
  with assms show ?thesis
    by (auto simp add: resourceLibvirtPoolCreate_def createOutcome_def)
next
  case (Some virConn)
  show ?thesis
  proof (cases "attr_type d \<noteq> ''dir'' \<and> attr_type d \<noteq> ''logical''")
    case True
    with Some assms show ?thesis
      by (auto simp add: resourceLibvirtPoolCreate_def createOutcome_def)
  next
    case ty: False
    obtain r0 d0 tr0 where cl: "createLocked pkg client virConn d [EvLock (attr_name d)] = (r0, d0, tr0)"
      by (cases "createLocked pkg client virConn d [EvLock (attr_name d)]") auto
    with Some ty assms have fin: "res = r0" "d' = d0" "tr' = tr0 @ [EvUnlock (attr_name d)]"
      by (auto simp add: resourceLibvirtPoolCreate_def Let_def)
    show ?thesis
    proof (cases "LookupStoragePoolByName virConn [EvLock (attr_name d)] (attr_name d)")
      case (Inr pool)
      with cl fin show ?thesis
        by (auto simp add: createLocked_def Let_def createOutcome_def)
    next
      case lk: (Inl virErr)
      show ?thesis
      proof (cases "buildPoolDef d")
        case (Inl e)
        from buildPoolDef_error [OF Inl] lk Inl cl fin show ?thesis
          by (auto simp add: createLocked_def Let_def createOutcome_def)
      next
        case (Inr pn)
        obtain poolDef needToBuild where pn: "pn = (poolDef, needToBuild)" by (cases pn) auto
        with lk Inr cl have "createDefine pkg client virConn d
            [EvLock (attr_name d), EvLookupStoragePoolByName (attr_name d) (Inl virErr)]
            poolDef needToBuild = (r0, d0, tr0)"
          by (simp add: createLocked_def Let_def)
        from define_outcome [OF this] Inr pn fin ty show ?thesis
          unfolding createOutcome_def by (elim disjE exE conjE) auto
      qed
    qed
  qed
qed

lemma noSetup_mem: "filter isSetupEvent evs = [] \<Longrightarrow> e \<in> set evs \<Longrightarrow> \<not> isSetupEvent e"
  by (auto simp add: filter_empty_conv)

lemma noSetup_noBuild: "filter isSetupEvent evs = [] \<Longrightarrow> filter isBuild evs = []"
proof -
  assume a: "filter isSetupEvent evs = []"
  have "\<And>e. isBuild e \<Longrightarrow> isSetupEvent e"
    subgoal for e by (cases e) simp_all
    done
  with a show ?thesis by (auto simp add: filter_empty_conv)
qed


lemma poolSteps_no_define:
  "poolSteps pool nb evs res d d' \<Longrightarrow> EvStoragePoolDefineXML x r \<notin> set evs"
  by (cases nb) (auto simp add: poolSteps_def dest: noSetup_mem)


lemma poolSteps_build:
  assumes "poolSteps pool True evs res d d'"
  shows "(\<exists>r. EvBuild pool r \<in> set evs)
       \<and> (\<forall>p e. EvBuild p (Some e) \<in> set evs \<longrightarrow>
             res = Some (ErrBuilding e) \<and> d' = d \<and> evs = [EvBuild pool (Some e)])"
proof -
  from assms obtain rb rest where
    e: "evs = EvBuild pool rb # rest" "filter isSetupEvent rest = []"
       "case rb of Some e \<Rightarrow> res = Some (ErrBuilding e) \<and> rest = [] \<and> d' = d
                 | None \<Rightarrow> okOrLate res \<and> (\<exists>r1 rest'. rest = EvSetAutostart pool True r1 # rest')"
    by (auto simp add: poolSteps_def)
  have nb: "\<And>p r. EvBuild p r \<notin> set rest"
    using noSetup_mem [OF e(2)] by fastforce
  show ?thesis
  proof (cases rb)
    case None
    with e nb show ?thesis by auto
  next
    case (Some x)
    with e nb show ?thesis by auto
  qed
qed

lemma poolSteps_skip:
  assumes "poolSteps pool False evs res d d'"
  shows "filter isBuild evs = [] \<and> (\<forall>e. res \<noteq> Some (ErrBuilding e))
           \<and> (\<exists>r. EvSetAutostart pool True r \<in> set evs)"
  using assms
  by (auto simp add: poolSteps_def okOrLate_def noSetup_noBuild split: option.splits)

lemma create_recordsId:
  assumes "resourceLibvirtPoolCreate pkg client d [] = (res, d', tr')"
  shows "recordsId tr' res d'"
proof -
  from create_outcome [OF assms]
  have "(\<forall>p i. EvGetUUIDString p (Inr i) \<notin> set tr')
      \<or> (\<exists>virErr data pool evs.
            tr' = [EvLock (attr_name d), EvLookupStoragePoolByName (attr_name d) (Inl virErr),
                   EvStoragePoolDefineXML data (Inr pool)] @ evs @ [EvFree pool, EvUnlock (attr_name d)]
            \<and> recordsId evs res d')"
    unfolding createOutcome_def poolSteps_def
    by (elim disjE exE conjE) auto
  then show ?thesis
  proof
    assume "\<forall>p i. EvGetUUIDString p (Inr i) \<notin> set tr'"
    then show ?thesis by (rule recordsId_none)
  next
    assume "\<exists>virErr data pool evs.
            tr' = [EvLock (attr_name d), EvLookupStoragePoolByName (attr_name d) (Inl virErr),
                   EvStoragePoolDefineXML data (Inr pool)] @ evs @ [EvFree pool, EvUnlock (attr_name d)]
            \<and> recordsId evs res d'"
    then obtain virErr data pool evs where
      t: "tr' = [EvLock (attr_name d), EvLookupStoragePoolByName (attr_name d) (Inl virErr),
                   EvStoragePoolDefineXML data (Inr pool)] @ evs @ [EvFree pool, EvUnlock (attr_name d)]"
      and r: "recordsId evs res d'"
      by blast
    have "recordsId (EvLock (attr_name d) # EvLookupStoragePoolByName (attr_name d) (Inl virErr)
            # EvStoragePoolDefineXML data (Inr pool) # ((evs @ [EvFree pool]) @ [EvUnlock (attr_name d)]))
            res d'"
      by (intro recordsId_Cons recordsId_snoc r) simp_all
    with t show ?thesis by simp
  qed
qed


lemmas run_defs =
  resourceLibvirtPoolCreate_def createLocked_def buildPoolDef_def createDefine_def createPool_def
  createActivate_def createRecordId_def resourceLibvirtPoolRead_def readPool_def
  resourceLibvirtPoolExists_def resourceLibvirtPoolDelete_def deletePool_def newDefPoolFromXML_def
  SetId_def Partial_def SetPartial_def devicesLoop_all Let_def

lemmas sample_defs =
  sampleClient_def sampleConnect_def takenConnect_def goneConnect_def downConnect_def
  noBuildConnect_def vgConnect_def samplePackage_def timeoutPackage_def emptyResourceData_def
  sampleDirData_def sampleNoPathData_def sampleVgData_def sampleReadData_def
  sampleDirDef_def sampleLogicalDef_def sampleVgDef_def sampleVgTargetDef_def
  sampleDirXML_def sampleLogicalXML_def sampleVgXML_def sampleVgTargetXML_def
  errNoPool_def errRPC_def ERR_NO_STORAGE_POOL_def emptyStoragePoolXML_def dq_def
  sampleStylesheet_def sampleRenamedDef_def sampleRenamedXML_def xsltPackage_def
  sampleCtrlName_def sampleReplacedName_def sampleCtrlDef_def sampleReplacedDef_def
  sampleReplacedXML_def lossyPackage_def sampleXsltData_def sampleCtrlData_def

section \<open>Create: path validation and the check of the name\<close>

text \<open>
  Claim C1, as the code has it. A create on a live connection whose declared type is
  \<open>dir\<close> with an empty path, or \<open>logical\<close> with a non-empty path, first takes the
  lock and looks the name up on the hypervisor. That lookup is the only call on the
  hypervisor in the run and nothing is changed there; the resource data is returned
  as it was. When the name is free the error is the one for the missing or forbidden
  path, and when the name is in use it is the conflict error.
\<close>

theorem create_path_check_follows_name_check:
  assumes "libvirt client = Some virConn"
      and "(attr_type d = ''dir'' \<and> attr_path d = [])
             \<or> (attr_type d = ''logical'' \<and> attr_path d \<noteq> [])"
      and "resourceLibvirtPoolCreate pkg client d [] = (res, d', tr')"
  shows "\<exists>r. tr' = [EvLock (attr_name d), EvLookupStoragePoolByName (attr_name d) r,
                     EvUnlock (attr_name d)]
           \<and> filter isHypervisorCall tr' = [EvLookupStoragePoolByName (attr_name d) r]
           \<and> filter isMutation tr' = []
           \<and> d' = d
           \<and> (case r of
                 Inl virErr \<Rightarrow>
                   res = Some (if attr_type d = ''dir'' then ErrDirPathRequired else ErrLogicalPath)
               | Inr pool \<Rightarrow> res = Some (ErrAlreadyExists (attr_name d)))"
  using assms
  by (cases "LookupStoragePoolByName virConn [EvLock (attr_name d)] (attr_name d)")
     (auto simp add: resourceLibvirtPoolCreate_def createLocked_def buildPoolDef_def Let_def)

theorem create_path_check_follows_name_check_witness:
  "resourceLibvirtPoolCreate samplePackage sampleClient sampleNoPathData []
     = (Some ErrDirPathRequired, sampleNoPathData,
        [EvLock ''pool1'', EvLookupStoragePoolByName ''pool1'' (Inl errNoPool), EvUnlock ''pool1''])
   \<and> resourceLibvirtPoolCreate samplePackage \<lparr>libvirt = Some takenConnect\<rparr> sampleNoPathData []
     = (Some (ErrAlreadyExists ''pool1''), sampleNoPathData,
        [EvLock ''pool1'', EvLookupStoragePoolByName ''pool1'' (Inr (StoragePoolPtr 7)),
         EvUnlock ''pool1''])"
  using create_path_check_follows_name_check
          [of sampleClient sampleConnect sampleNoPathData samplePackage
              "Some ErrDirPathRequired" sampleNoPathData
              "[EvLock ''pool1'', EvLookupStoragePoolByName ''pool1'' (Inl errNoPool),
                EvUnlock ''pool1'']"]
        create_path_check_follows_name_check
          [of "\<lparr>libvirt = Some takenConnect\<rparr>" takenConnect sampleNoPathData samplePackage
              "Some (ErrAlreadyExists ''pool1'')" sampleNoPathData
              "[EvLock ''pool1'', EvLookupStoragePoolByName ''pool1'' (Inr (StoragePoolPtr 7)),
                EvUnlock ''pool1'']"]
  by (simp add: run_defs sample_defs)

text \<open>
  Claim C1 as the specification words it fails: a create of a \<open>dir\<close> pool without a
  path on a hypervisor where the name is free returns the error for the missing path,
  but only after a lookup by name on the hypervisor.
\<close>

theorem create_path_check_counterexample:
  "fst (resourceLibvirtPoolCreate samplePackage sampleClient sampleNoPathData [])
     = Some ErrDirPathRequired
   \<and> \<not> (filter isHypervisorCall
           (snd (snd (resourceLibvirtPoolCreate samplePackage sampleClient sampleNoPathData [])))
         = [])"
  by (simp add: run_defs sample_defs)

section \<open>Read: a pool that is gone\<close>

text \<open>
  Claim C2. When the lookup by the identifier does not find the pool, a read clears
  the identifier and returns no error; it touches nothing else of the resource data
  and calls the hypervisor no further.
\<close>

theorem read_not_found_clears_id:
  assumes "libvirt client = Some virConn"
      and "LookupStoragePoolByUUIDString virConn tr (IdStr d) = Inl virErr"
      and "Code virErr = ERR_NO_STORAGE_POOL"
  shows "resourceLibvirtPoolRead pkg client d tr
           = (None, d\<lparr>IdStr := []\<rparr>,
              tr @ [EvLookupStoragePoolByUUIDString (IdStr d) (Inl virErr), EvSetId []])"
  using assms by (simp add: resourceLibvirtPoolRead_def SetId_def)

theorem read_not_found_clears_id_witness:
  "resourceLibvirtPoolRead samplePackage \<lparr>libvirt = Some goneConnect\<rparr> sampleReadData []
     = (None, emptyResourceData,
        [EvLookupStoragePoolByUUIDString ''uuid-1'' (Inl errNoPool), EvSetId []])"
  using read_not_found_clears_id
          [of "\<lparr>libvirt = Some goneConnect\<rparr>" goneConnect "[]" sampleReadData errNoPool samplePackage]
  by (simp add: sample_defs)

section \<open>Delete: a pool that is gone\<close>

text \<open>
  Claim C3, on \<open>deletePool\<close> as the specification describes it. When the lookup by
  the identifier fails because the pool no longer exists, a delete returns no error
  and calls the hypervisor no further; so it does for a pool deleted before, by this
  operation or by hand.
\<close>

theorem delete_absent_succeeds:
  assumes "libvirt client = Some virConn"
      and "LookupStoragePoolByUUIDString virConn tr (IdStr d) = Inl virErr"
      and "Code virErr = ERR_NO_STORAGE_POOL"
  shows "resourceLibvirtPoolDelete client d tr
           = (None, tr @ [EvLookupStoragePoolByUUIDString (IdStr d) (Inl virErr)])"
  using assms by (simp add: resourceLibvirtPoolDelete_def deletePool_def)

theorem delete_absent_succeeds_witness:
  "resourceLibvirtPoolDelete \<lparr>libvirt = Some goneConnect\<rparr> sampleReadData []
     = (None, [EvLookupStoragePoolByUUIDString ''uuid-1'' (Inl errNoPool)])"
  using delete_absent_succeeds
          [of "\<lparr>libvirt = Some goneConnect\<rparr>" goneConnect "[]" sampleReadData errNoPool]
  by (simp add: sample_defs)

section \<open>Create: a name in use\<close>



section \<open>Create: the build step\<close>

lemma create_define_cases:
  assumes "resourceLibvirtPoolCreate pkg client d [] = (res, d', tr')"
  shows "((\<forall>x pool. EvStoragePoolDefineXML x (Inr pool) \<notin> set tr')
            \<and> filter isBuild tr' = [] \<and> (\<forall>e. res \<noteq> Some (ErrBuilding e)))
       \<or> (\<exists>virErr data pool evs poolDef needToBuild.
            tr' = [EvLock (attr_name d), EvLookupStoragePoolByName (attr_name d) (Inl virErr),
                   EvStoragePoolDefineXML data (Inr pool)] @ evs @ [EvFree pool, EvUnlock (attr_name d)]
            \<and> poolSteps pool needToBuild evs res d d'
            \<and> buildPoolDef d = Inr (poolDef, needToBuild))"
  using create_outcome [OF assms] unfolding createOutcome_def
  by (elim disjE exE conjE) ((simp; fail) | (rule disjI2, blast))+

text \<open>
  Claim C5. A create of a logical pool without source devices never calls the build
  step and never returns a build error; once its definition is accepted it goes on to
  set autostart on the pool. A create of a directory pool, or of a logical pool with
  one or more source devices, calls the build step on the pool that the accepted
  definition gave; when that step fails the create returns the build error, leaves
  the resource data as it was, and neither sets autostart nor starts the pool.
\<close>

theorem create_build_step_policy:
  assumes "resourceLibvirtPoolCreate pkg client d [] = (res, d', tr')"
  shows "(attr_type d = ''logical'' \<and> attr_source_devices d = [] \<longrightarrow>
            filter isBuild tr' = [] \<and> (\<forall>e. res \<noteq> Some (ErrBuilding e))
            \<and> (\<forall>x pool. EvStoragePoolDefineXML x (Inr pool) \<in> set tr' \<longrightarrow>
                  (\<exists>r. EvSetAutostart pool True r \<in> set tr')))
       \<and> (attr_type d = ''dir'' \<or> (attr_type d = ''logical'' \<and> attr_source_devices d \<noteq> []) \<longrightarrow>
            (\<forall>x pool. EvStoragePoolDefineXML x (Inr pool) \<in> set tr' \<longrightarrow>
               (\<exists>r. EvBuild pool r \<in> set tr')
               \<and> (\<forall>e. EvBuild pool (Some e) \<in> set tr' \<longrightarrow>
                     res = Some (ErrBuilding e) \<and> d' = d
                     \<and> (\<forall>p b r. EvSetAutostart p b r \<notin> set tr')
                     \<and> (\<forall>p r. EvCreate p r \<notin> set tr'))))"
    (is "(?A \<longrightarrow> ?X) \<and> (?B \<longrightarrow> ?Y)")
proof -
  from create_define_cases [OF assms] show ?thesis
  proof
    assume "(\<forall>x pool. EvStoragePoolDefineXML x (Inr pool) \<notin> set tr')
            \<and> filter isBuild tr' = [] \<and> (\<forall>e. res \<noteq> Some (ErrBuilding e))"
    then show ?thesis by simp
  next
    assume "\<exists>virErr data pool evs poolDef needToBuild.
            tr' = [EvLock (attr_name d), EvLookupStoragePoolByName (attr_name d) (Inl virErr),
                   EvStoragePoolDefineXML data (Inr pool)] @ evs @ [EvFree pool, EvUnlock (attr_name d)]
            \<and> poolSteps pool needToBuild evs res d d'
            \<and> buildPoolDef d = Inr (poolDef, needToBuild)"
    then obtain virErr data pool evs poolDef needToBuild where
      t: "tr' = [EvLock (attr_name d), EvLookupStoragePoolByName (attr_name d) (Inl virErr),
                   EvStoragePoolDefineXML data (Inr pool)] @ evs @ [EvFree pool, EvUnlock (attr_name d)]"
      and ps: "poolSteps pool needToBuild evs res d d'"
      and bp: "buildPoolDef d = Inr (poolDef, needToBuild)"
      by blast
    have nd: "\<And>x r. EvStoragePoolDefineXML x r \<notin> set evs"
      by (rule poolSteps_no_define [OF ps])
    have m: "\<And>x p. EvStoragePoolDefineXML x (Inr p) \<in> set tr' \<Longrightarrow> p = pool"
      using t nd by simp
    have b: "\<And>p r. (EvBuild p r \<in> set tr') = (EvBuild p r \<in> set evs)"
      using t by simp
    have nb: "needToBuild = (attr_type d = ''dir'' \<or> attr_source_devices d \<noteq> [])"
      by (rule buildPoolDef_needToBuild [OF bp])
    show ?thesis
    proof (cases needToBuild)
      case True
      with nb have notA: "\<not> ?A" by auto
      from True ps have "poolSteps pool True evs res d d'" by simp
      from poolSteps_build [OF this]
      have b1: "\<exists>r. EvBuild pool r \<in> set evs"
        and b2: "\<And>p e. EvBuild p (Some e) \<in> set evs \<Longrightarrow>
                   res = Some (ErrBuilding e) \<and> d' = d \<and> evs = [EvBuild pool (Some e)]"
        by blast+
      have fatal: "res = Some (ErrBuilding e) \<and> d' = d
                 \<and> (\<forall>p b r. EvSetAutostart p b r \<notin> set tr')
                 \<and> (\<forall>p r. EvCreate p r \<notin> set tr')"
        if "EvBuild pool (Some e) \<in> set tr'" for e
      proof -
        from that have "EvBuild pool (Some e) \<in> set evs" by (simp add: b)
        from b2 [OF this] have r: "res = Some (ErrBuilding e)" "d' = d"
          "evs = [EvBuild pool (Some e)]"
          by simp_all
        with t show ?thesis by simp
      qed
      from b1 have built: "\<exists>r. EvBuild pool r \<in> set tr'" by (simp add: b)
      have y: ?Y
      proof (intro allI impI)
        fix x p assume "EvStoragePoolDefineXML x (Inr p) \<in> set tr'"
        then have p: "p = pool" by (rule m)
        from built fatal show "(\<exists>r. EvBuild p r \<in> set tr')
               \<and> (\<forall>e. EvBuild p (Some e) \<in> set tr' \<longrightarrow>
                     res = Some (ErrBuilding e) \<and> d' = d
                     \<and> (\<forall>p b r. EvSetAutostart p b r \<notin> set tr')
                     \<and> (\<forall>p r. EvCreate p r \<notin> set tr'))"
          unfolding p by blast
      qed
      have 1: "?A \<longrightarrow> ?X" using notA by blast
      have 2: "?B \<longrightarrow> ?Y" by (rule impI) (rule y)
      from 1 2 show ?thesis by (rule conjI)
    next
      case False
      with nb have notB: "\<not> ?B" by auto
      from False ps have "poolSteps pool False evs res d d'" by simp
      from poolSteps_skip [OF this]
      have s1: "filter isBuild evs = []" and s2: "\<forall>e. res \<noteq> Some (ErrBuilding e)"
        and s3: "\<exists>r. EvSetAutostart pool True r \<in> set evs"
        by blast+
      from s1 t have f: "filter isBuild tr' = []" by simp
      from s3 obtain r where "EvSetAutostart pool True r \<in> set evs" by blast
      with t have a: "EvSetAutostart pool True r \<in> set tr'" by simp
      have "\<forall>x p. EvStoragePoolDefineXML x (Inr p) \<in> set tr' \<longrightarrow>
                  (\<exists>r. EvSetAutostart p True r \<in> set tr')"
      proof (intro allI impI)
        fix x p assume "EvStoragePoolDefineXML x (Inr p) \<in> set tr'"
        then have "p = pool" by (rule m)
        with a show "\<exists>r. EvSetAutostart p True r \<in> set tr'" by blast
      qed
      with f s2 have x: ?X by simp
      have 1: "?A \<longrightarrow> ?X" by (rule impI) (rule x)
      have 2: "?B \<longrightarrow> ?Y" using notB by blast
      from 1 2 show ?thesis by (rule conjI)
    qed
  qed
qed

theorem create_build_step_policy_witness:
  "resourceLibvirtPoolCreate samplePackage sampleClient sampleVgData []
     = (None,
        sampleVgData\<lparr>IdStr := ''uuid-1'', attr_name := ''pool1'', attr_type := ''dir'',
                      attr_capacity := 100, attr_allocation := 40,
                      attr_path := ''/tmp/x''\<rparr>,
        [EvLock ''vg0'', EvLookupStoragePoolByName ''vg0'' (Inl errNoPool),
         EvStoragePoolDefineXML sampleVgXML (Inr (StoragePoolPtr 1)),
         EvSetAutostart (StoragePoolPtr 1) True None, EvCreate (StoragePoolPtr 1) None,
         EvRefresh (StoragePoolPtr 1) None, EvGetUUIDString (StoragePoolPtr 1) (Inr ''uuid-1''),
         EvSetId ''uuid-1'', EvWaitForExists ''uuid-1'' None,
         EvLookupStoragePoolByUUIDString ''uuid-1'' (Inr (StoragePoolPtr 1)),
         EvGetName (StoragePoolPtr 1) (Inr ''pool1''),
         EvGetInfo (StoragePoolPtr 1) (Inr \<lparr>Capacity = 100, Allocation = 40, Available = 60\<rparr>),
         EvGetXMLDesc (StoragePoolPtr 1) (Inr sampleDirXML),
         EvFree (StoragePoolPtr 1), EvFree (StoragePoolPtr 1), EvUnlock ''vg0''])
   \<and> resourceLibvirtPoolCreate samplePackage \<lparr>libvirt = Some noBuildConnect\<rparr> sampleDirData []
     = (Some (ErrBuilding errRPC), sampleDirData,
        [EvLock ''pool1'', EvLookupStoragePoolByName ''pool1'' (Inl errNoPool),
         EvStoragePoolDefineXML sampleDirXML (Inr (StoragePoolPtr 1)),
         EvBuild (StoragePoolPtr 1) (Some errRPC),
         EvFree (StoragePoolPtr 1), EvUnlock ''pool1''])"
proof -
  have r1: "resourceLibvirtPoolCreate samplePackage sampleClient sampleVgData []
     = (None,
        sampleVgData\<lparr>IdStr := ''uuid-1'', attr_name := ''pool1'', attr_type := ''dir'',
                      attr_capacity := 100, attr_allocation := 40,
                      attr_path := ''/tmp/x''\<rparr>,
        [EvLock ''vg0'', EvLookupStoragePoolByName ''vg0'' (Inl errNoPool),
         EvStoragePoolDefineXML sampleVgXML (Inr (StoragePoolPtr 1)),
         EvSetAutostart (StoragePoolPtr 1) True None, EvCreate (StoragePoolPtr 1) None,
         EvRefresh (StoragePoolPtr 1) None, EvGetUUIDString (StoragePoolPtr 1) (Inr ''uuid-1''),
         EvSetId ''uuid-1'', EvWaitForExists ''uuid-1'' None,
         EvLookupStoragePoolByUUIDString ''uuid-1'' (Inr (StoragePoolPtr 1)),
         EvGetName (StoragePoolPtr 1) (Inr ''pool1''),
         EvGetInfo (StoragePoolPtr 1) (Inr \<lparr>Capacity = 100, Allocation = 40, Available = 60\<rparr>),
         EvGetXMLDesc (StoragePoolPtr 1) (Inr sampleDirXML),
         EvFree (StoragePoolPtr 1), EvFree (StoragePoolPtr 1), EvUnlock ''vg0''])"
    by (simp add: run_defs sample_defs)
  have r2: "resourceLibvirtPoolCreate samplePackage \<lparr>libvirt = Some noBuildConnect\<rparr> sampleDirData []
     = (Some (ErrBuilding errRPC), sampleDirData,
        [EvLock ''pool1'', EvLookupStoragePoolByName ''pool1'' (Inl errNoPool),
         EvStoragePoolDefineXML sampleDirXML (Inr (StoragePoolPtr 1)),
         EvBuild (StoragePoolPtr 1) (Some errRPC),
         EvFree (StoragePoolPtr 1), EvUnlock ''pool1''])"
    by (simp add: run_defs sample_defs)
  from create_build_step_policy [OF r1] create_build_step_policy [OF r2] r1 r2
  show ?thesis by simp
qed

section \<open>The definition, there and back\<close>





section \<open>Exists\<close>

text \<open>
  Claim C7. On a live connection, the existence check answers by the lookup under
  the identifier: an error with the code for a missing storage pool gives
  \<open>(false, nil)\<close>; any other error gives \<open>false\<close> with the error whose message
  names the identifier; a pool found gives \<open>(true, nil)\<close>.
\<close>

theorem exists_by_lookup:
  assumes "libvirt client = Some virConn"
  shows "(\<forall>virErr. LookupStoragePoolByUUIDString virConn tr (IdStr d) = Inl virErr
            \<and> Code virErr = ERR_NO_STORAGE_POOL
          \<longrightarrow> fst (resourceLibvirtPoolExists pkg client d tr) = (False, None))
       \<and> (\<forall>virErr. LookupStoragePoolByUUIDString virConn tr (IdStr d) = Inl virErr
            \<and> Code virErr \<noteq> ERR_NO_STORAGE_POOL
          \<longrightarrow> fst (resourceLibvirtPoolExists pkg client d tr)
                = (False, Some (ErrCantRetrieve (IdStr d)))
            \<and> errorString pkg (ErrCantRetrieve (IdStr d))
                = ''Can'' @ sq @ ''t retrieve pool '' @ IdStr d)
       \<and> (\<forall>pool. LookupStoragePoolByUUIDString virConn tr (IdStr d) = Inr pool
          \<longrightarrow> fst (resourceLibvirtPoolExists pkg client d tr) = (True, None))"
  using assms by (simp add: resourceLibvirtPoolExists_def)

theorem exists_by_lookup_witness:
  "fst (resourceLibvirtPoolExists samplePackage \<lparr>libvirt = Some goneConnect\<rparr> sampleReadData [])
     = (False, None)
   \<and> fst (resourceLibvirtPoolExists samplePackage \<lparr>libvirt = Some downConnect\<rparr> sampleReadData [])
     = (False, Some (ErrCantRetrieve ''uuid-1''))
   \<and> fst (resourceLibvirtPoolExists samplePackage sampleClient sampleReadData [])
     = (True, None)"
  using exists_by_lookup
          [of "\<lparr>libvirt = Some goneConnect\<rparr>" goneConnect "[]" sampleReadData samplePackage]
        exists_by_lookup
          [of "\<lparr>libvirt = Some downConnect\<rparr>" downConnect "[]" sampleReadData samplePackage]
        exists_by_lookup
          [of sampleClient sampleConnect "[]" sampleReadData samplePackage]
  by (simp add: sample_defs)

section \<open>Create: the identifier\<close>

text \<open>
  Claim C8. Wherever the log of a create shows that the pool returned its UUID, the
  next event writes that UUID as the resource identifier, and the wait for the pool
  comes only after it. When the wait fails, the create returns that failure with the
  identifier in place. At the end of any such create the identifier is the UUID,
  unless the final read looked the pool up under it, did not get it and cleared it.
\<close>

theorem create_records_id_at_once:
  assumes "resourceLibvirtPoolCreate pkg client d [] = (res, d', tr')"
      and "EvGetUUIDString pool (Inr poolId) \<in> set tr'"
  shows "(\<exists>pre rw post. tr' = pre @ EvGetUUIDString pool (Inr poolId) # EvSetId poolId
                                  # EvWaitForExists poolId rw # post)
       \<and> (\<forall>msg. res = Some (ErrWaitForExists msg) \<longrightarrow> IdStr d' = poolId)
       \<and> (IdStr d' = poolId
            \<or> (IdStr d' = []
                 \<and> (\<exists>e. EvLookupStoragePoolByUUIDString poolId (Inl e) \<in> set tr')))"
  using create_recordsId [OF assms(1)] assms(2) unfolding recordsId_def by blast

theorem create_records_id_at_once_witness:
  "resourceLibvirtPoolCreate timeoutPackage sampleClient sampleDirData []
     = (Some (ErrWaitForExists ''timeout''), sampleDirData\<lparr>IdStr := ''uuid-1''\<rparr>,
        [EvLock ''pool1'', EvLookupStoragePoolByName ''pool1'' (Inl errNoPool),
         EvStoragePoolDefineXML sampleDirXML (Inr (StoragePoolPtr 1)),
         EvBuild (StoragePoolPtr 1) None,
         EvSetAutostart (StoragePoolPtr 1) True None, EvCreate (StoragePoolPtr 1) None,
         EvRefresh (StoragePoolPtr 1) None, EvGetUUIDString (StoragePoolPtr 1) (Inr ''uuid-1''),
         EvSetId ''uuid-1'', EvWaitForExists ''uuid-1'' (Some ''timeout''),
         EvFree (StoragePoolPtr 1), EvUnlock ''pool1''])
   \<and> IdStr (sampleDirData\<lparr>IdStr := ''uuid-1''\<rparr>) = ''uuid-1''"
proof -
  have r1: "resourceLibvirtPoolCreate timeoutPackage sampleClient sampleDirData []
     = (Some (ErrWaitForExists ''timeout''), sampleDirData\<lparr>IdStr := ''uuid-1''\<rparr>,
        [EvLock ''pool1'', EvLookupStoragePoolByName ''pool1'' (Inl errNoPool),
         EvStoragePoolDefineXML sampleDirXML (Inr (StoragePoolPtr 1)),
         EvBuild (StoragePoolPtr 1) None,
         EvSetAutostart (StoragePoolPtr 1) True None, EvCreate (StoragePoolPtr 1) None,
         EvRefresh (StoragePoolPtr 1) None, EvGetUUIDString (StoragePoolPtr 1) (Inr ''uuid-1''),
         EvSetId ''uuid-1'', EvWaitForExists ''uuid-1'' (Some ''timeout''),
         EvFree (StoragePoolPtr 1), EvUnlock ''pool1''])"
    by (simp add: run_defs sample_defs)
  have m: "EvGetUUIDString (StoragePoolPtr 1) (Inr ''uuid-1'')
             \<in> set [EvLock ''pool1'', EvLookupStoragePoolByName ''pool1'' (Inl errNoPool),
         EvStoragePoolDefineXML sampleDirXML (Inr (StoragePoolPtr 1)),
         EvBuild (StoragePoolPtr 1) None,
         EvSetAutostart (StoragePoolPtr 1) True None, EvCreate (StoragePoolPtr 1) None,
         EvRefresh (StoragePoolPtr 1) None, EvGetUUIDString (StoragePoolPtr 1) (Inr ''uuid-1''),
         EvSetId ''uuid-1'', EvWaitForExists ''uuid-1'' (Some ''timeout''),
         EvFree (StoragePoolPtr 1), EvUnlock ''pool1'']"
    by simp
  from create_records_id_at_once [OF r1 m]
  have "IdStr (sampleDirData\<lparr>IdStr := ''uuid-1''\<rparr>) = ''uuid-1''" by blast
  with r1 show ?thesis by simp
qed

section \<open>Read: the path of a logical pool\<close>

text \<open>
  Claim C9. When the log of a read shows a description that parses to a definition
  of type \<open>logical\<close>, the read leaves the path attribute as it was, whatever target
  path the definition has. A read changes the path attribute only when the
  description parses to a definition that is not logical and has a non-empty target
  path, and then to that path.
\<close>

theorem read_path_only_for_non_logical:
  assumes "resourceLibvirtPoolRead pkg client d [] = (res, d', tr')"
  shows "(\<forall>pool desc poolDef.
            EvGetXMLDesc pool (Inr desc) \<in> set tr' \<and> xmlUnmarshal pkg desc = (None, poolDef)
            \<and> Type poolDef = ''logical''
          \<longrightarrow> attr_path d' = attr_path d)
       \<and> (attr_path d' \<noteq> attr_path d \<longrightarrow>
            (\<exists>pool desc poolDef.
               EvGetXMLDesc pool (Inr desc) \<in> set tr' \<and> xmlUnmarshal pkg desc = (None, poolDef)
               \<and> Type poolDef \<noteq> ''logical'' \<and> targetPath poolDef \<noteq> []
               \<and> attr_path d' = targetPath poolDef))"
proof -
  from read_surfaces [OF assms] have s: "surfacesDef pkg tr' res d d'" by simp
  have 1: "attr_path d' = attr_path d"
    if "EvGetXMLDesc pool (Inr desc) \<in> set tr'" "xmlUnmarshal pkg desc = (None, poolDef)"
       "Type poolDef = ''logical''" for pool desc poolDef
  proof -
    from s that(1,2)
    have "attr_path d' = (if Type poolDef \<noteq> ''logical'' \<and> targetPath poolDef \<noteq> []
                               then targetPath poolDef else attr_path d)"
      unfolding surfacesDef_def by blast
    with that(3) show ?thesis by simp
  qed
  have 2: "\<exists>pool desc poolDef.
               EvGetXMLDesc pool (Inr desc) \<in> set tr' \<and> xmlUnmarshal pkg desc = (None, poolDef)
               \<and> Type poolDef \<noteq> ''logical'' \<and> targetPath poolDef \<noteq> []
               \<and> attr_path d' = targetPath poolDef"
    if ch: "attr_path d' \<noteq> attr_path d"
  proof -
    from s ch obtain pool desc poolDef where
      e: "EvGetXMLDesc pool (Inr desc) \<in> set tr'" "xmlUnmarshal pkg desc = (None, poolDef)"
      unfolding surfacesDef_def by blast
    with s
    have p: "attr_path d' = (if Type poolDef \<noteq> ''logical'' \<and> targetPath poolDef \<noteq> []
                               then targetPath poolDef else attr_path d)"
      unfolding surfacesDef_def by blast
    with ch have "Type poolDef \<noteq> ''logical'' \<and> targetPath poolDef \<noteq> []"
      by (auto split: if_splits)
    with p e show ?thesis by auto
  qed
  from 1 2 show ?thesis by blast
qed

theorem read_path_only_for_non_logical_witness:
  "resourceLibvirtPoolRead samplePackage \<lparr>libvirt = Some vgConnect\<rparr> sampleReadData []
     = (None,
        sampleReadData\<lparr>attr_name := ''vg0'', attr_type := ''logical'', attr_capacity := 100,
                        attr_allocation := 40\<rparr>,
        [EvLookupStoragePoolByUUIDString ''uuid-1'' (Inr (StoragePoolPtr 1)),
         EvGetName (StoragePoolPtr 1) (Inr ''vg0''),
         EvGetInfo (StoragePoolPtr 1) (Inr \<lparr>Capacity = 100, Allocation = 40, Available = 60\<rparr>),
         EvGetXMLDesc (StoragePoolPtr 1) (Inr sampleVgTargetXML),
         EvFree (StoragePoolPtr 1)])
   \<and> targetPath sampleVgTargetDef = ''/dev/vg0''
   \<and> attr_path (sampleReadData\<lparr>attr_name := ''vg0'', attr_type := ''logical'',
                   attr_capacity := 100, attr_allocation := 40\<rparr>) = []
   \<and> attr_path (fst (snd (resourceLibvirtPoolRead samplePackage sampleClient sampleReadData [])))
       = ''/tmp/x''"
proof -
  have r1: "resourceLibvirtPoolRead samplePackage \<lparr>libvirt = Some vgConnect\<rparr> sampleReadData []
     = (None,
        sampleReadData\<lparr>attr_name := ''vg0'', attr_type := ''logical'', attr_capacity := 100,
                        attr_allocation := 40\<rparr>,
        [EvLookupStoragePoolByUUIDString ''uuid-1'' (Inr (StoragePoolPtr 1)),
         EvGetName (StoragePoolPtr 1) (Inr ''vg0''),
         EvGetInfo (StoragePoolPtr 1) (Inr \<lparr>Capacity = 100, Allocation = 40, Available = 60\<rparr>),
         EvGetXMLDesc (StoragePoolPtr 1) (Inr sampleVgTargetXML),
         EvFree (StoragePoolPtr 1)])"
    by (simp add: run_defs sample_defs)
  have r2: "resourceLibvirtPoolRead samplePackage sampleClient sampleReadData []
     = (None,
        sampleReadData\<lparr>attr_name := ''pool1'', attr_type := ''dir'', attr_capacity := 100,
                        attr_allocation := 40, attr_path := ''/tmp/x''\<rparr>,
        [EvLookupStoragePoolByUUIDString ''uuid-1'' (Inr (StoragePoolPtr 1)),
         EvGetName (StoragePoolPtr 1) (Inr ''pool1''),
         EvGetInfo (StoragePoolPtr 1) (Inr \<lparr>Capacity = 100, Allocation = 40, Available = 60\<rparr>),
         EvGetXMLDesc (StoragePoolPtr 1) (Inr sampleDirXML),
         EvFree (StoragePoolPtr 1)])"
    by (simp add: run_defs sample_defs)
  have t: "targetPath sampleVgTargetDef = ''/dev/vg0''"
    by (simp add: targetPath_def sampleVgTargetDef_def)
  have p: "attr_path (sampleReadData\<lparr>attr_name := ''vg0'', attr_type := ''logical'',
                   attr_capacity := 100, attr_allocation := 40\<rparr>) = []"
    by (simp add: sample_defs)
  from read_path_only_for_non_logical [OF r1] read_path_only_for_non_logical [OF r2] r1 r2 t p
  show ?thesis by simp
qed

section \<open>Read: any failure of the lookup\<close>

text \<open>
  Claim C10. Whatever error the lookup under the identifier returns, with the code
  for a missing storage pool or with any other, a read clears the identifier and
  returns no error, so its result does not tell the two apart; the existence check
  on the same answer returns an error unless the code is the one for a missing pool.
\<close>

theorem read_takes_any_lookup_error_as_deleted:
  assumes "libvirt client = Some virConn"
      and "LookupStoragePoolByUUIDString virConn tr (IdStr d) = Inl virErr"
  shows "fst (resourceLibvirtPoolRead pkg client d tr) = None
       \<and> fst (snd (resourceLibvirtPoolRead pkg client d tr)) = d\<lparr>IdStr := []\<rparr>
       \<and> (Code virErr \<noteq> ERR_NO_STORAGE_POOL \<longrightarrow>
            fst (resourceLibvirtPoolExists pkg client d tr)
              = (False, Some (ErrCantRetrieve (IdStr d))))"
  using assms
  by (simp add: resourceLibvirtPoolRead_def resourceLibvirtPoolExists_def SetId_def)

theorem read_takes_any_lookup_error_as_deleted_witness:
  "fst (resourceLibvirtPoolRead samplePackage \<lparr>libvirt = Some downConnect\<rparr> sampleReadData [])
     = None
   \<and> fst (snd (resourceLibvirtPoolRead samplePackage \<lparr>libvirt = Some downConnect\<rparr>
                  sampleReadData []))
     = emptyResourceData
   \<and> Code errRPC \<noteq> ERR_NO_STORAGE_POOL
   \<and> fst (resourceLibvirtPoolExists samplePackage \<lparr>libvirt = Some downConnect\<rparr> sampleReadData [])
     = (False, Some (ErrCantRetrieve ''uuid-1''))"
  using read_takes_any_lookup_error_as_deleted
          [of "\<lparr>libvirt = Some downConnect\<rparr>" downConnect "[]" sampleReadData errRPC samplePackage]
  by (simp add: sample_defs)

end
